theory Spec2Isabelle
  imports Main "HOL-Library.Word" "HOL-Library.Multiset"
begin

unbundle bit_operations_syntax

chapter \<open>Definitions\<close>

section \<open>The worker pool of core/thread.c\<close>

subsection \<open>Data\<close>

text \<open>
  \<^verbatim>\<open>thread_task_t\<close> of include/thread.h. The name is the C string held in
  \<^verbatim>\<open>char name[64]\<close>; the function pointer and the argument pointer are addresses.
  The field \<^verbatim>\<open>function\<close> is called \<open>func\<close> here, \<open>function\<close> being a keyword.
\<close>

record thread_task_t =
  name :: string
  func :: nat
  arg :: nat

definition MAX_THREADS :: nat where
  "MAX_THREADS = 8"

definition MAX_QUEUE :: int where
  "MAX_QUEUE = 256"

text \<open>
  The part of \<^verbatim>\<open>thread_pool_t\<close> that \<^verbatim>\<open>queue_mutex\<close> protects. The three counters
  are C \<^verbatim>\<open>int\<close>s; in every state the pool can reach they lie between 0 and 256
  (lemma \<open>run_pool_ok\<close>), so no arithmetic on them overflows, every index is inside the
  array, and \<^verbatim>\<open>%\<close> agrees with \<open>mod\<close>.
\<close>

record thread_pool_t =
  queue :: "thread_task_t list"
  queue_size :: int
  head :: int
  tail :: int
  shutdown :: bool

text \<open>The pool as \<^verbatim>\<open>thread_pool_init\<close> leaves it: \<^verbatim>\<open>memset\<close> to zero, shutdown false.\<close>

definition zero_task :: thread_task_t where
  "zero_task = \<lparr>name = [], func = 0, arg = 0\<rparr>"

definition thread_pool_init :: thread_pool_t where
  "thread_pool_init =
     \<lparr>queue = replicate (nat MAX_QUEUE) zero_task, queue_size = 0, head = 0, tail = 0,
      shutdown = False\<rparr>"

subsection \<open>Critical sections\<close>

text \<open>
  Every access to the pool happens with \<^verbatim>\<open>queue_mutex\<close> held, so each function is
  modelled by what it does between taking the mutex (or waking up inside
  \<^verbatim>\<open>pthread_cond_wait\<close>) and giving it up again.

  \<^verbatim>\<open>thread_pool_submit\<close>: \<open>None\<close> means that the caller is (still) blocked in
  \<^verbatim>\<open>pthread_cond_wait(&pool.queue_not_full, ...)\<close>, with the pool untouched;
  \<open>Some r\<close> means that the call returned \<open>r\<close>.
\<close>

definition thread_pool_submit :: "thread_task_t \<Rightarrow> thread_pool_t \<Rightarrow> int option \<times> thread_pool_t" where
  "thread_pool_submit task p =
     (if queue_size p = MAX_QUEUE \<and> \<not> shutdown p then (None, p)
      else if shutdown p then (Some (- 1), p)
      else (Some 0,
            p\<lparr>queue := (queue p)[nat (tail p) := task],
              tail := (tail p + 1) mod MAX_QUEUE,
              queue_size := queue_size p + 1\<rparr>))"

text \<open>
  One pass of the loop of \<^verbatim>\<open>thread_worker\<close> up to the unlock: the worker keeps
  waiting on \<^verbatim>\<open>queue_not_empty\<close>, or leaves through \<^verbatim>\<open>pthread_exit\<close>, or takes
  the task at \<^verbatim>\<open>pool.head\<close>, which it then runs without the mutex.
\<close>

datatype worker_action = Wait | Exit | Take thread_task_t

definition thread_worker :: "thread_pool_t \<Rightarrow> worker_action \<times> thread_pool_t" where
  "thread_worker p =
     (if queue_size p = 0 \<and> \<not> shutdown p then (Wait, p)
      else if shutdown p \<and> queue_size p = 0 then (Exit, p)
      else (Take (queue p ! nat (head p)),
            p\<lparr>head := (head p + 1) mod MAX_QUEUE, queue_size := queue_size p - 1\<rparr>))"

text \<open>The first half of \<^verbatim>\<open>thread_pool_shutdown\<close>: the flag is set under the mutex.\<close>

definition thread_pool_shutdown_flag :: "thread_pool_t \<Rightarrow> thread_pool_t" where
  "thread_pool_shutdown_flag p = p\<lparr>shutdown := True\<rparr>"

text \<open>
  The second half is the loop over \<^verbatim>\<open>pthread_join\<close>. \<open>Joining i\<close> says that
  \<^verbatim>\<open>thread_pool_shutdown\<close> is about to join thread \<open>i\<close>. When that call returns, the
  function either fails at once with -1, or goes on to the next thread, or, after the last
  thread, destroys the mutex and returns 0.
\<close>

datatype shutdown_pc = NotCalled | Joining nat | Returned int

definition thread_pool_shutdown_join :: "nat \<Rightarrow> bool \<Rightarrow> shutdown_pc" where
  "thread_pool_shutdown_join i ok =
     (if \<not> ok then Returned (- 1)
      else if Suc i < MAX_THREADS then Joining (Suc i)
      else Returned 0)"

subsection \<open>The pool with its threads\<close>

text \<open>
  A worker is at the top of its loop (possibly asleep in \<^verbatim>\<open>pthread_cond_wait\<close>), or
  inside \<^verbatim>\<open>task.function(task.arg)\<close>, or gone. The state of the whole pool adds three
  history lists that the C code does not keep: the tasks whose submit returned 0, in the
  order in which they were put into the queue; the tasks taken out, in that order; and the
  tasks whose function has returned.
\<close>

datatype worker_pc = Idle | Executing thread_task_t | Exited

record system =
  pool :: thread_pool_t
  workers :: "worker_pc list"
  caller :: shutdown_pc
  submitted :: "thread_task_t list"
  dequeued :: "thread_task_t list"
  executed :: "thread_task_t list"

definition boot :: system where
  "boot = \<lparr>pool = thread_pool_init, workers = replicate MAX_THREADS Idle, caller = NotCalled,
            submitted = [], dequeued = [], executed = []\<rparr>"

text \<open>
  The threads interleave at the granularity of the critical sections:
  \<^item> \<open>Submit t\<close>: some producer passes through the critical section of
    \<^verbatim>\<open>thread_pool_submit\<close> with task \<open>t\<close> (a producer that stays blocked tries again
    with a later \<open>Submit t\<close>);
  \<^item> \<open>Worker i\<close>: worker \<open>i\<close>, at the top of its loop, passes through its critical
    section;
  \<^item> \<open>Done i\<close>: the task function running in worker \<open>i\<close> returns;
  \<^item> \<open>Shutdown\<close>: \<^verbatim>\<open>thread_pool_shutdown\<close> is called and sets the flag;
  \<^item> \<open>Join ok\<close>: the pending \<^verbatim>\<open>pthread_join\<close> returns, with 0 if \<open>ok\<close> and with an
    error code otherwise. It can return 0 only once the joined thread is gone.
  \<open>step\<close> is \<open>None\<close> where the event cannot happen in the state.
\<close>

datatype event = Submit thread_task_t | Worker nat | Done nat | Shutdown | Join bool

fun step :: "event \<Rightarrow> system \<Rightarrow> system option" where
  "step (Submit t) s =
     (case thread_pool_submit t (pool s) of
        (None, p') \<Rightarrow> Some (s\<lparr>pool := p'\<rparr>)
      | (Some r, p') \<Rightarrow>
          Some (s\<lparr>pool := p', submitted := (if r = 0 then submitted s @ [t] else submitted s)\<rparr>))"
| "step (Worker i) s =
     (if i < length (workers s) \<and> workers s ! i = Idle then
        (case thread_worker (pool s) of
           (Wait, p') \<Rightarrow> Some (s\<lparr>pool := p'\<rparr>)
         | (Exit, p') \<Rightarrow> Some (s\<lparr>pool := p', workers := (workers s)[i := Exited]\<rparr>)
         | (Take t, p') \<Rightarrow>
             Some (s\<lparr>pool := p', workers := (workers s)[i := Executing t],
                     dequeued := dequeued s @ [t]\<rparr>))
      else None)"
| "step (Done i) s =
     (if i < length (workers s) then
        (case workers s ! i of
           Executing t \<Rightarrow> Some (s\<lparr>workers := (workers s)[i := Idle], executed := executed s @ [t]\<rparr>)
         | _ \<Rightarrow> None)
      else None)"
| "step Shutdown s =
     (case caller s of
        NotCalled \<Rightarrow> Some (s\<lparr>pool := thread_pool_shutdown_flag (pool s), caller := Joining 0\<rparr>)
      | _ \<Rightarrow> None)"
| "step (Join ok) s =
     (case caller s of
        Joining i \<Rightarrow>
          (if ok \<and> workers s ! i \<noteq> Exited then None
           else Some (s\<lparr>caller := thread_pool_shutdown_join i ok\<rparr>))
      | _ \<Rightarrow> None)"

fun run :: "event list \<Rightarrow> system \<Rightarrow> system option" where
  "run [] s = Some s"
| "run (e # es) s = (case step e s of None \<Rightarrow> None | Some s' \<Rightarrow> run es s')"

subsection \<open>What the queue holds\<close>

text \<open>The \<open>n\<close> tasks of the ring from index \<open>h\<close> on, oldest first.\<close>

fun ring_items :: "thread_task_t list \<Rightarrow> int \<Rightarrow> nat \<Rightarrow> thread_task_t list" where
  "ring_items q h 0 = []"
| "ring_items q h (Suc n) = q ! nat h # ring_items q ((h + 1) mod MAX_QUEUE) n"

definition pending :: "thread_pool_t \<Rightarrow> thread_task_t list" where
  "pending p = ring_items (queue p) (head p) (nat (queue_size p))"

definition pool_ok :: "thread_pool_t \<Rightarrow> bool" where
  "pool_ok p \<longleftrightarrow>
     int (length (queue p)) = MAX_QUEUE \<and> 0 \<le> head p \<and> head p < MAX_QUEUE \<and>
     0 \<le> queue_size p \<and> queue_size p \<le> MAX_QUEUE \<and>
     tail p = (head p + queue_size p) mod MAX_QUEUE"

fun running :: "worker_pc list \<Rightarrow> thread_task_t list" where
  "running [] = []"
| "running (Executing t # ws) = t # running ws"
| "running (w # ws) = running ws"

definition joined_ok :: "system \<Rightarrow> bool" where
  "joined_ok s =
     (case caller s of
        NotCalled \<Rightarrow> True
      | Joining i \<Rightarrow>
          i < MAX_THREADS \<and> shutdown (pool s) \<and> list_all (\<lambda>w. w = Exited) (take i (workers s))
      | Returned r \<Rightarrow>
          shutdown (pool s) \<and> (if r = 0 then list_all (\<lambda>w. w = Exited) (workers s) else True))"

definition sys_ok :: "system \<Rightarrow> bool" where
  "sys_ok s \<longleftrightarrow>
     pool_ok (pool s) \<and> length (workers s) = MAX_THREADS \<and>
     submitted s = dequeued s @ pending (pool s) \<and>
     mset (dequeued s) = mset (executed s) + mset (running (workers s)) \<and>
     (if Exited \<in> set (workers s) then shutdown (pool s) \<and> queue_size (pool s) = 0 else True) \<and>
     joined_ok s"

text \<open>What an observer sees of a state: where shutdown is, the workers, the queue, the tasks run.\<close>

definition observe ::
  "system \<Rightarrow> shutdown_pc \<times> worker_pc list \<times> thread_task_t list \<times> thread_task_t list" where
  "observe s = (caller s, workers s, pending (pool s), executed s)"

section \<open>The framed protocol of net/transport.c\<close>

subsection \<open>Bytes of a word\<close>

type_synonym byte = "8 word"

text \<open>
  \<^verbatim>\<open>transport_send\<close> hands the header struct to \<^verbatim>\<open>send\<close> as it lies in memory, and
  \<^verbatim>\<open>transport_receive\<close> lets \<^verbatim>\<open>recv\<close> fill the struct; neither calls \<^verbatim>\<open>htonl\<close> or
  \<^verbatim>\<open>ntohl\<close>. The byte order of the host is therefore a parameter of both.
\<close>

datatype endianness = BigEndian | LittleEndian

text \<open>The bytes of a word, most significant first, and back.\<close>

definition be32 :: "32 word \<Rightarrow> byte list" where
  "be32 x = [ucast (drop_bit 24 x), ucast (drop_bit 16 x), ucast (drop_bit 8 x), ucast x]"

definition be16 :: "16 word \<Rightarrow> byte list" where
  "be16 x = [ucast (drop_bit 8 x), ucast x]"

fun word32_of_be :: "byte list \<Rightarrow> 32 word" where
  "word32_of_be [b0, b1, b2, b3] =
     push_bit 24 (ucast b0) OR push_bit 16 (ucast b1) OR push_bit 8 (ucast b2) OR ucast b3"
| "word32_of_be _ = 0"

fun word16_of_be :: "byte list \<Rightarrow> 16 word" where
  "word16_of_be [b0, b1] = push_bit 8 (ucast b0) OR ucast b1"
| "word16_of_be _ = 0"

text \<open>The number that a byte string denotes when read most significant byte first.\<close>

definition be_value :: "byte list \<Rightarrow> nat" where
  "be_value bs = foldl (\<lambda>a b. a * 256 + unat b) 0 bs"

text \<open>A word as the host keeps it in memory.\<close>

definition store32 :: "endianness \<Rightarrow> 32 word \<Rightarrow> byte list" where
  "store32 e x = (case e of BigEndian \<Rightarrow> be32 x | LittleEndian \<Rightarrow> rev (be32 x))"

definition store16 :: "endianness \<Rightarrow> 16 word \<Rightarrow> byte list" where
  "store16 e x = (case e of BigEndian \<Rightarrow> be16 x | LittleEndian \<Rightarrow> rev (be16 x))"

definition load32 :: "endianness \<Rightarrow> byte list \<Rightarrow> 32 word" where
  "load32 e bs = (case e of BigEndian \<Rightarrow> word32_of_be bs | LittleEndian \<Rightarrow> word32_of_be (rev bs))"

definition load16 :: "endianness \<Rightarrow> byte list \<Rightarrow> 16 word" where
  "load16 e bs = (case e of BigEndian \<Rightarrow> word16_of_be bs | LittleEndian \<Rightarrow> word16_of_be (rev bs))"

subsection \<open>Header, message, socket\<close>

definition KORRA_MSG_MAGIC :: "32 word" where
  "KORRA_MSG_MAGIC = 0x4B525241"

definition KORRA_PROTOCOL_VERSION :: "8 word" where
  "KORRA_PROTOCOL_VERSION = 1"

text \<open>
  \<^verbatim>\<open>transport_header_t\<close> and \<^verbatim>\<open>transport_message_t\<close> of include/transport.h. Both
  structs have fields \<^verbatim>\<open>msg_type\<close> and \<^verbatim>\<open>payload_size\<close>; the header's are prefixed
  with \<open>h_\<close> here. The payload pointer is \<open>None\<close> for \<^verbatim>\<open>NULL\<close> and \<open>Some bs\<close> for a
  pointer to a buffer that holds the bytes \<open>bs\<close>.
\<close>

record transport_header_t =
  magic :: "32 word"
  version :: "8 word"
  h_msg_type :: "8 word"
  reserved :: "16 word"
  h_payload_size :: "32 word"

record transport_message_t =
  msg_type :: "8 word"
  payload_size :: "32 word"
  payload :: "byte list option"

text \<open>\<^verbatim>\<open>transport_socket_t\<close>, without the address, which neither function reads.\<close>

record transport_socket_t =
  socket_fd :: int
  is_server :: bool
  is_connected :: bool

text \<open>
  The struct in memory: each field is aligned to its size, so the fields lie at offsets
  0, 4, 5, 6 and 8 with no padding, and \<^verbatim>\<open>sizeof(header)\<close> is 12.
\<close>

definition sizeof_header :: nat where
  "sizeof_header = 12"

definition header_bytes :: "endianness \<Rightarrow> transport_header_t \<Rightarrow> byte list" where
  "header_bytes e h =
     store32 e (magic h) @ [version h] @ [h_msg_type h] @ store16 e (reserved h) @
     store32 e (h_payload_size h)"

definition header_of_bytes :: "endianness \<Rightarrow> byte list \<Rightarrow> transport_header_t" where
  "header_of_bytes e bs =
     \<lparr>magic = load32 e (take 4 bs), version = bs ! 4, h_msg_type = bs ! 5,
      reserved = load16 e (take 2 (drop 6 bs)), h_payload_size = load32 e (take 4 (drop 8 bs))\<rparr>"

definition buffer :: "byte list option \<Rightarrow> byte list" where
  "buffer p = (case p of None \<Rightarrow> [] | Some bs \<Rightarrow> bs)"

subsection \<open>The operating system\<close>

text \<open>
  \<^verbatim>\<open>send\<close>, \<^verbatim>\<open>recv\<close>, \<^verbatim>\<open>malloc\<close> and \<^verbatim>\<open>free\<close> belong to the environment. The world
  records what they will do and what they were asked:
  \<^item> \<open>send_plan\<close>: the outcomes of the coming calls of \<^verbatim>\<open>send\<close>, each a failure (-1)
    or the number of bytes the kernel is willing to take; once the plan is used up the
    kernel takes everything;
  \<^item> \<open>outbox\<close>: the bytes the kernel has taken for transmission;
  \<^item> \<open>inbox\<close>: what the coming calls of \<^verbatim>\<open>recv\<close> find: a failure (-1), or a chunk of
    bytes that has arrived, of which a call takes as much as it asked for and leaves the
    rest; an empty inbox means that the peer has closed, and \<^verbatim>\<open>recv\<close> returns 0;
  \<^item> \<open>malloc_plan\<close>: whether the coming calls of \<^verbatim>\<open>malloc\<close> succeed; once used up,
    they do;
  \<^item> \<open>allocated\<close>: the number of buffers obtained from \<^verbatim>\<open>malloc\<close> and not yet freed;
  \<^item> \<open>calls\<close>: the calls made so far;
  \<^item> \<open>stderr\<close>: the format strings of the lines written by \<^verbatim>\<open>DEBUG_LOG\<close> (in a build
    without \<^verbatim>\<open>NDEBUG\<close>) and \<^verbatim>\<open>perror\<close>.
  \<^verbatim>\<open>ssize_t\<close> is taken to be wider than 32 bits, so that -1 never equals a payload size.
\<close>

datatype send_result = SendFails | SendAccepts nat

datatype recv_event = RecvFails | Arrives "byte list"

datatype os_call = Send_call nat | Recv_call nat | Malloc_call nat | Free_call

record os_world =
  send_plan :: "send_result list"
  outbox :: "byte list"
  inbox :: "recv_event list"
  malloc_plan :: "bool list"
  allocated :: nat
  calls :: "os_call list"
  stderr :: "string list"

definition os_send :: "byte list \<Rightarrow> os_world \<Rightarrow> int \<times> os_world" where
  "os_send bs w =
     (let w' = w\<lparr>calls := calls w @ [Send_call (length bs)]\<rparr> in
      case send_plan w of
        [] \<Rightarrow> (int (length bs), w'\<lparr>outbox := outbox w @ bs\<rparr>)
      | SendFails # plan \<Rightarrow> (- 1, w'\<lparr>send_plan := plan\<rparr>)
      | SendAccepts k # plan \<Rightarrow>
          (int (min k (length bs)), w'\<lparr>send_plan := plan, outbox := outbox w @ take k bs\<rparr>))"

text \<open>The result of \<open>os_recv\<close> is \<open>None\<close> for -1 and otherwise the bytes stored.\<close>

definition os_recv :: "nat \<Rightarrow> os_world \<Rightarrow> byte list option \<times> os_world" where
  "os_recv n w =
     (let w' = w\<lparr>calls := calls w @ [Recv_call n]\<rparr> in
      case inbox w of
        [] \<Rightarrow> (Some [], w')
      | RecvFails # rest \<Rightarrow> (None, w'\<lparr>inbox := rest\<rparr>)
      | Arrives bs # rest \<Rightarrow>
          (Some (take n bs),
           w'\<lparr>inbox := (if length bs \<le> n then rest else Arrives (drop n bs) # rest)\<rparr>))"

definition bytes_received :: "byte list option \<Rightarrow> int" where
  "bytes_received r = (case r of None \<Rightarrow> - 1 | Some bs \<Rightarrow> int (length bs))"

definition os_malloc :: "nat \<Rightarrow> os_world \<Rightarrow> bool \<times> os_world" where
  "os_malloc n w =
     (let w' = w\<lparr>calls := calls w @ [Malloc_call n]\<rparr> in
      case malloc_plan w of
        [] \<Rightarrow> (True, w'\<lparr>allocated := Suc (allocated w)\<rparr>)
      | ok # plan \<Rightarrow>
          (ok, w'\<lparr>malloc_plan := plan, allocated := (if ok then Suc (allocated w) else allocated w)\<rparr>))"

definition os_free :: "os_world \<Rightarrow> os_world" where
  "os_free w = w\<lparr>calls := calls w @ [Free_call], allocated := allocated w - 1\<rparr>"

definition log_line :: "string \<Rightarrow> os_world \<Rightarrow> os_world" where
  "log_line fmt w = w\<lparr>stderr := stderr w @ [fmt]\<rparr>"

subsection \<open>Sending and receiving\<close>

text \<open>
  \<^verbatim>\<open>transport_send\<close>. The local \<^verbatim>\<open>header\<close> is declared without an initialiser, so it
  starts with whatever the stack holds: the parameter \<open>stack\<close>. Four of its five fields are
  then assigned. The result is \<open>None\<close> where the C program reads outside the payload buffer
  (\<^verbatim>\<open>payload_size\<close> larger than the buffer, or a \<^verbatim>\<open>NULL\<close> payload with a nonzero size),
  which has no defined behaviour. The socket state is returned although the function
  never writes it, so that this can be stated.
\<close>

definition transport_send ::
  "endianness \<Rightarrow> transport_header_t \<Rightarrow> transport_message_t \<Rightarrow> transport_socket_t \<Rightarrow> os_world \<Rightarrow>
   (int \<times> transport_socket_t \<times> os_world) option" where
  "transport_send e stack message transport_socket w =
     (if \<not> is_connected transport_socket then
        Some (- 1, transport_socket, log_line ''Cannot send message, not connected'' w)
      else
        let header = stack\<lparr>magic := KORRA_MSG_MAGIC, version := KORRA_PROTOCOL_VERSION,
                            h_msg_type := msg_type message,
                            h_payload_size := payload_size message\<rparr>;
            (sent, w1) = os_send (header_bytes e header) w
        in if sent \<noteq> int sizeof_header then
             Some (- 1, transport_socket, log_line ''Failed to send message header'' w1)
           else if payload_size message > 0 then
             (if length (buffer (payload message)) < unat (payload_size message) then None
              else
                let (sent, w2) =
                      os_send (take (unat (payload_size message)) (buffer (payload message))) w1
                in if sent \<noteq> int (unat (payload_size message)) then
                     Some (- 1, transport_socket, log_line ''Failed to send message payload'' w2)
                   else Some (0, transport_socket, log_line ''Sent message type %d, size %d'' w2))
           else Some (0, transport_socket, log_line ''Sent message type %d, size %d'' w1))"

text \<open>
  \<^verbatim>\<open>transport_receive\<close>, which returns its result, the caller's message struct, the socket
  state and the world.
\<close>

definition transport_receive ::
  "endianness \<Rightarrow> transport_message_t \<Rightarrow> transport_socket_t \<Rightarrow> os_world \<Rightarrow>
   int \<times> transport_message_t \<times> transport_socket_t \<times> os_world" where
  "transport_receive e message transport_socket w =
     (if \<not> is_connected transport_socket then
        (- 1, message, transport_socket, log_line ''Cannot receive message, not connected'' w)
      else
        let (got, w1) = os_recv sizeof_header w
        in if bytes_received got \<noteq> int sizeof_header then
             (if bytes_received got = 0 then
                (- 1, message, transport_socket\<lparr>is_connected := False\<rparr>,
                 log_line ''Connection closed by peer'' w1)
              else (- 1, message, transport_socket, log_line ''Failed to receive message header'' w1))
           else
             let header = header_of_bytes e (buffer got)
             in if magic header \<noteq> KORRA_MSG_MAGIC then
                  (- 1, message, transport_socket, log_line ''Invalid message magic: %08x'' w1)
                else if version header \<noteq> KORRA_PROTOCOL_VERSION then
                  (- 1, message, transport_socket, log_line ''Unsupported protocol version: %d'' w1)
                else
                  let message = message\<lparr>msg_type := h_msg_type header,
                                          payload_size := h_payload_size header\<rparr>
                  in if h_payload_size header > 0 then
                       (case os_malloc (unat (h_payload_size header)) w1 of
                          (False, w2) \<Rightarrow>
                            (- 1, message\<lparr>payload := None\<rparr>, transport_socket,
                             log_line ''Failed to allocate %d bytes for payload'' w2)
                        | (True, w2) \<Rightarrow>
                            let (got, w3) = os_recv (unat (h_payload_size header)) w2
                            in if bytes_received got \<noteq> int (unat (h_payload_size header)) then
                                 (if bytes_received got = 0 then
                                    (- 1, message\<lparr>payload := None\<rparr>,
                                     transport_socket\<lparr>is_connected := False\<rparr>,
                                     os_free (log_line ''Connection closed by peer during payload receive'' w3))
                                  else
                                    (- 1, message\<lparr>payload := None\<rparr>, transport_socket,
                                     os_free (log_line ''Failed to receive message payload'' w3)))
                               else
                                 (0, message\<lparr>payload := got\<rparr>, transport_socket,
                                  log_line ''Received message type %d, size %d'' w3))
                     else
                       (0, message\<lparr>payload := None\<rparr>, transport_socket,
                        log_line ''Received message type %d, size %d'' w1))"

text \<open>The result of a send, and the bytes that it put into the kernel's hands.\<close>

definition send_ret :: "(int \<times> transport_socket_t \<times> os_world) option \<Rightarrow> int option" where
  "send_ret res = (case res of None \<Rightarrow> None | Some (r, s, w) \<Rightarrow> Some r)"

definition sent_bytes :: "(int \<times> transport_socket_t \<times> os_world) option \<Rightarrow> byte list" where
  "sent_bytes res = (case res of None \<Rightarrow> [] | Some (r, s, w) \<Rightarrow> outbox w)"

section \<open>Concrete scenarios\<close>

definition job :: "string \<Rightarrow> thread_task_t" where
  "job n = \<lparr>name = n, func = 4096, arg = 0\<rparr>"

text \<open>Two jobs are queued; each of two workers runs one; shutdown joins all eight workers.\<close>

definition drain_trace :: "event list" where
  "drain_trace =
     [Submit (job ''a''), Submit (job ''b''), Worker 0, Shutdown, Worker 1, Done 1, Done 0,
      Worker 0, Worker 1, Worker 2, Worker 3, Worker 4, Worker 5, Worker 6, Worker 7,
      Join True, Join True, Join True, Join True, Join True, Join True, Join True, Join True]"

text \<open>
  Job a, running in worker 0, calls \<^verbatim>\<open>thread_pool_shutdown\<close> itself; joining the calling
  thread fails (\<^verbatim>\<open>EDEADLK\<close>).
\<close>

definition self_shutdown_trace :: "event list" where
  "self_shutdown_trace = [Submit (job ''a''), Submit (job ''b''), Worker 0, Shutdown, Join False]"

definition fifo_trace :: "event list" where
  "fifo_trace = [Submit (job ''a''), Submit (job ''b''), Worker 3, Submit (job ''c''), Worker 0]"

definition sock0 :: transport_socket_t where
  "sock0 = \<lparr>socket_fd = 3, is_server = False, is_connected = True\<rparr>"

definition world0 :: os_world where
  "world0 = \<lparr>send_plan = [], outbox = [], inbox = [], malloc_plan = [], allocated = 0,
             calls = [], stderr = []\<rparr>"

text \<open>A stack slot that holds leftovers, and one that happens to be all zero.\<close>

definition stack0 :: transport_header_t where
  "stack0 = \<lparr>magic = 0, version = 0, h_msg_type = 0, reserved = 0xBEEF, h_payload_size = 0\<rparr>"

definition stack_clean :: transport_header_t where
  "stack_clean = \<lparr>magic = 0, version = 0, h_msg_type = 0, reserved = 0, h_payload_size = 0\<rparr>"

definition heartbeat :: transport_message_t where
  "heartbeat = \<lparr>msg_type = 0, payload_size = 0, payload = None\<rparr>"

definition job_submit :: transport_message_t where
  "job_submit = \<lparr>msg_type = 3, payload_size = 2, payload = Some [7, 9]\<rparr>"

text \<open>The struct a caller passes to receive, still holding an earlier message.\<close>

definition stale_message :: transport_message_t where
  "stale_message = \<lparr>msg_type = 4, payload_size = 3, payload = Some [1, 2, 3]\<rparr>"

definition bad_magic_world :: os_world where
  "bad_magic_world =
     world0\<lparr>inbox := [Arrives [0xDE, 0xAD, 0xBE, 0xEF, 1, 3, 0, 0, 0, 0, 0, 10,
                                 1, 2, 3, 4, 5, 6, 7, 8, 9, 10]]\<rparr>"

definition bad_version_world :: os_world where
  "bad_version_world =
     world0\<lparr>inbox := [Arrives [0x4B, 0x52, 0x52, 0x41, 2, 3, 0, 0, 0, 0, 0, 10,
                                 1, 2, 3, 4, 5, 6, 7, 8, 9, 10]]\<rparr>"

text \<open>A header that announces four bytes, followed by two bytes only, or by the end of the stream.\<close>

definition truncated_world :: os_world where
  "truncated_world =
     world0\<lparr>inbox := [Arrives [0x4B, 0x52, 0x52, 0x41, 1, 3, 0, 0, 0, 0, 0, 4], Arrives [7, 9]]\<rparr>"

definition cut_off_world :: os_world where
  "cut_off_world = world0\<lparr>inbox := [Arrives [0x4B, 0x52, 0x52, 0x41, 1, 3, 0, 0, 0, 0, 0, 4]]\<rparr>"

definition heartbeat_world :: os_world where
  "heartbeat_world =
     world0\<lparr>inbox := [Arrives [0x4B, 0x52, 0x52, 0x41, 1, 0, 0xBE, 0xEF, 0, 0, 0, 0]]\<rparr>"

lemmas scenario_defs =
  sock0_def world0_def stack0_def stack_clean_def heartbeat_def job_submit_def stale_message_def
  truncated_world_def cut_off_world_def heartbeat_world_def bad_magic_world_def bad_version_world_def

lemmas transport_defs =
  transport_send_def transport_receive_def os_send_def os_recv_def os_malloc_def os_free_def
  log_line_def bytes_received_def buffer_def sizeof_header_def header_bytes_def header_of_bytes_def
  store32_def store16_def load32_def load16_def be32_def be16_def
  KORRA_MSG_MAGIC_def KORRA_PROTOCOL_VERSION_def

chapter \<open>Properties\<close>

section \<open>The ring buffer\<close>

lemma ring_items_length [simp]: "length (ring_items q h n) = n"
  by (induction n arbitrary: h) auto

lemma mod_wrap:
  fixes a m :: int
  assumes "0 \<le> a" "a < 2 * m"
  shows "a mod m = (if a < m then a else a - m)"
proof (cases "a < m")
  case True
  with assms show ?thesis by simp
next
  case False
  have "a mod m = (a - m) mod m" by simp
  also have "\<dots> = a - m" using False assms by (intro mod_pos_pos_trivial) auto
  finally show ?thesis using False by simp
qed

lemma ring_items_append:
  "0 \<le> h \<Longrightarrow> h < MAX_QUEUE \<Longrightarrow> int n < MAX_QUEUE \<Longrightarrow> int (length q) = MAX_QUEUE \<Longrightarrow>
   ring_items (q[nat ((h + int n) mod MAX_QUEUE) := x]) h (Suc n) = ring_items q h n @ [x]"
proof (induction n arbitrary: h)
  case 0
  then show ?case by (simp add: MAX_QUEUE_def)
next
  case (Suc n)
  let ?h' = "(h + 1) mod MAX_QUEUE"
  let ?t = "(h + int (Suc n)) mod MAX_QUEUE"
  have h': "0 \<le> ?h'" "?h' < MAX_QUEUE" by (simp_all add: MAX_QUEUE_def)
  have t: "(?h' + int n) mod MAX_QUEUE = ?t"
    by (simp add: mod_simps algebra_simps)
  have "?t \<noteq> h"
    using Suc.prems by (simp add: mod_wrap MAX_QUEUE_def)
  moreover have "0 \<le> ?t" by (simp add: MAX_QUEUE_def)
  ultimately have ne: "nat ?t \<noteq> nat h"
    using Suc.prems(1) by (simp only: nat_eq_iff2) auto
  have "ring_items (q[nat ?t := x]) h (Suc (Suc n))
        = q[nat ?t := x] ! nat h # ring_items (q[nat ?t := x]) ?h' (Suc n)"
    by simp
  also have "q[nat ?t := x] ! nat h = q ! nat h"
    using ne by simp
  also have "ring_items (q[nat ?t := x]) ?h' (Suc n) = ring_items q ?h' n @ [x]"
    using Suc.IH [of ?h'] h' Suc.prems t by simp
  finally show ?case by simp
qed

lemma pool_ok_init: "pool_ok thread_pool_init"
  by (simp add: pool_ok_def thread_pool_init_def MAX_QUEUE_def)

lemma pending_init: "pending thread_pool_init = []"
  by (simp add: pending_def thread_pool_init_def)

lemma running_replicate_Idle: "running (replicate n Idle) = []"
  by (induction n) auto

lemma sys_ok_boot: "sys_ok boot"
  by (simp add: sys_ok_def boot_def pool_ok_init pending_init running_replicate_Idle joined_ok_def)

lemma submit_pool_ok:
  "pool_ok p \<Longrightarrow> thread_pool_submit t p = (r, p') \<Longrightarrow> pool_ok p'"
  by (auto simp: thread_pool_submit_def pool_ok_def MAX_QUEUE_def mod_simps algebra_simps split: if_splits)

lemma submit_pending:
  assumes "pool_ok p" "thread_pool_submit t p = (r, p')"
  shows "pending p' = (if r = Some 0 then pending p @ [t] else pending p)"
proof (cases "r = Some 0")
  case False
  with assms(2) show ?thesis
    by (auto simp: thread_pool_submit_def split: if_splits)
next
  case True
  with assms(2) have nf: "queue_size p \<noteq> MAX_QUEUE" "\<not> shutdown p"
    and p': "p' = p\<lparr>queue := (queue p)[nat (tail p) := t],
              tail := (tail p + 1) mod MAX_QUEUE,
              queue_size := queue_size p + 1\<rparr>"
    by (auto simp: thread_pool_submit_def split: if_splits)
  from assms(1) nf have n: "int (nat (queue_size p)) < MAX_QUEUE" and n0: "0 \<le> queue_size p"
    by (auto simp: pool_ok_def)
  have "nat (queue_size p + 1) = Suc (nat (queue_size p))"
    using n0 by simp
  moreover have "tail p = (head p + int (nat (queue_size p))) mod MAX_QUEUE"
    using assms(1) n0 by (simp add: pool_ok_def)
  ultimately show ?thesis
    using True p' assms(1) n ring_items_append [of "head p" "nat (queue_size p)" "queue p" t]
    by (simp add: pending_def pool_ok_def)
qed

lemma submit_shutdown:
  "thread_pool_submit t p = (r, p') \<Longrightarrow> shutdown p' = shutdown p"
  by (auto simp: thread_pool_submit_def split: if_splits)

lemma submit_after_flag:
  "shutdown p \<Longrightarrow> thread_pool_submit t p = (r, p') \<Longrightarrow> p' = p \<and> r = Some (- 1)"
  by (auto simp: thread_pool_submit_def split: if_splits)

lemma worker_pool_ok:
  assumes "pool_ok p" "thread_worker p = (a, p')"
  shows "pool_ok p'"
proof (cases "queue_size p = 0")
  case True
  with assms show ?thesis
    by (auto simp: thread_worker_def split: if_splits)
next
  case False
  with assms(2) have p': "p' = p\<lparr>head := (head p + 1) mod MAX_QUEUE, queue_size := queue_size p - 1\<rparr>"
    by (auto simp: thread_worker_def split: if_splits)
  have "((head p + 1) mod MAX_QUEUE + (queue_size p - 1)) mod MAX_QUEUE
        = (head p + 1 + (queue_size p - 1)) mod MAX_QUEUE"
    by (rule mod_add_left_eq)
  then have "tail p' = (head p' + queue_size p') mod MAX_QUEUE"
    using assms(1) by (simp add: p' pool_ok_def)
  moreover have "0 \<le> head p'" "head p' < MAX_QUEUE"
    by (simp_all add: p' MAX_QUEUE_def)
  moreover have "0 \<le> queue_size p'" "queue_size p' \<le> MAX_QUEUE"
    using assms(1) False by (simp_all add: p' pool_ok_def)
  moreover have "int (length (queue p')) = MAX_QUEUE"
    using assms(1) by (simp add: p' pool_ok_def)
  ultimately show ?thesis
    by (simp add: pool_ok_def)
qed

lemma worker_pending:
  assumes "pool_ok p" "thread_worker p = (a, p')"
  shows "pending p = (case a of Take t \<Rightarrow> t # pending p' | _ \<Rightarrow> pending p')"
proof (cases "queue_size p = 0")
  case True
  with assms(2) show ?thesis
    by (auto simp: thread_worker_def split: if_splits)
next
  case False
  with assms(1) have "0 < queue_size p"
    by (simp add: pool_ok_def)
  then have "nat (queue_size p) = Suc (nat (queue_size p - 1))"
    by arith
  with False assms(2) show ?thesis
    by (auto simp: thread_worker_def pending_def split: if_splits)
qed

lemma worker_shutdown:
  "thread_worker p = (a, p') \<Longrightarrow> shutdown p' = shutdown p"
  by (auto simp: thread_worker_def split: if_splits)

lemma worker_Exit:
  "thread_worker p = (Exit, p') \<Longrightarrow> p' = p \<and> shutdown p \<and> queue_size p = 0"
  by (auto simp: thread_worker_def split: if_splits)

section \<open>An invariant of the pool and its threads\<close>

lemma running_update:
  "i < length ws \<Longrightarrow>
   mset (running (ws[i := w])) + mset (running [ws ! i]) = mset (running ws) + mset (running [w])"
proof (induction ws arbitrary: i)
  case Nil
  then show ?case by simp
next
  case (Cons v vs)
  show ?case
  proof (cases i)
    case 0
    then show ?thesis by (cases v; cases w) simp_all
  next
    case (Suc j)
    with Cons.prems have "j < length vs" by simp
    from Cons.IH [OF this] Suc show ?thesis by (cases v) simp_all
  qed
qed

lemma exited_prefix_update:
  assumes "list_all (\<lambda>w. w = Exited) (take i ws)" "ws ! j \<noteq> Exited" "j < length ws"
  shows "take i (ws[j := w]) = take i ws"
proof (cases "i \<le> j")
  case True
  then show ?thesis by simp
next
  case False
  then have "j < length (take i ws)" using assms(3) by simp
  then have "take i ws ! j = Exited"
    using assms(1) by (simp only: list_all_length)
  with False have "ws ! j = Exited" by simp
  with assms(2) show ?thesis by simp
qed

lemma joined_ok_update:
  assumes "joined_ok s" "workers s ! j \<noteq> Exited" "j < length (workers s)"
    and "shutdown (pool s') = shutdown (pool s)" "caller s' = caller s"
    and "workers s' = (workers s)[j := w]"
  shows "joined_ok s'"
proof (cases "caller s")
  case NotCalled
  with assms show ?thesis by (simp add: joined_ok_def)
next
  case (Joining i)
  with assms(1) have "list_all (\<lambda>w. w = Exited) (take i (workers s))"
    by (simp add: joined_ok_def)
  from exited_prefix_update [OF this assms(2,3)] Joining assms show ?thesis
    by (simp add: joined_ok_def)
next
  case (Returned r)
  show ?thesis
  proof (cases "r = 0")
    case True
    with Returned assms(1) have "list_all (\<lambda>w. w = Exited) (workers s)"
      by (simp add: joined_ok_def)
    with assms(2,3) show ?thesis by (simp add: list_all_length)
  next
    case False
    with Returned assms show ?thesis by (simp add: joined_ok_def)
  qed
qed

lemma joined_ok_same_workers:
  "joined_ok s \<Longrightarrow> shutdown (pool s') = shutdown (pool s) \<Longrightarrow> caller s' = caller s \<Longrightarrow>
   workers s' = workers s \<Longrightarrow> joined_ok s'"
  by (simp add: joined_ok_def split: shutdown_pc.splits)

lemma step_Submit_ok:
  assumes "sys_ok s" "step (Submit t) s = Some s'"
  shows "sys_ok s'"
proof -
  obtain r p' where sub: "thread_pool_submit t (pool s) = (r, p')"
    by (cases "thread_pool_submit t (pool s)")
  from assms(1) have ok: "pool_ok (pool s)" by (simp add: sys_ok_def)
  have pool: "pool s' = p'" and same: "workers s' = workers s" "caller s' = caller s"
    "dequeued s' = dequeued s" "executed s' = executed s"
    and subm: "submitted s' = (if r = Some 0 then submitted s @ [t] else submitted s)"
    using assms(2) sub by (auto split: option.splits)
  have 1: "pool_ok (pool s')"
    using submit_pool_ok [OF ok sub] pool by simp
  have 2: "submitted s' = dequeued s' @ pending (pool s')"
    using submit_pending [OF ok sub] assms(1) pool same subm by (simp add: sys_ok_def)
  have sh: "shutdown (pool s') = shutdown (pool s)"
    using submit_shutdown [OF sub] pool by simp
  have 3: "if Exited \<in> set (workers s') then shutdown (pool s') \<and> queue_size (pool s') = 0 else True"
  proof (cases "Exited \<in> set (workers s)")
    case True
    with assms(1) have "shutdown (pool s)" "queue_size (pool s) = 0"
      by (simp_all add: sys_ok_def)
    with submit_after_flag [OF _ sub] pool same show ?thesis by simp
  next
    case False
    with same show ?thesis by simp
  qed
  have 4: "joined_ok s'"
    by (rule joined_ok_same_workers [of s]) (use assms(1) sh same in \<open>simp_all add: sys_ok_def\<close>)
  show ?thesis
    using assms(1) 1 2 3 4 same by (simp add: sys_ok_def)
qed

lemma step_Worker_ok:
  assumes "sys_ok s" "step (Worker i) s = Some s'"
  shows "sys_ok s'"
proof -
  obtain a p' where w: "thread_worker (pool s) = (a, p')"
    by (cases "thread_worker (pool s)")
  from assms(1) have ok: "pool_ok (pool s)" by (simp add: sys_ok_def)
  from assms(2) have i: "i < length (workers s)" "workers s ! i = Idle"
    by (auto split: if_splits)
  have pool: "pool s' = p'" and same: "caller s' = caller s" "submitted s' = submitted s"
    "executed s' = executed s"
    using assms(2) w i by (auto split: worker_action.splits)
  have 1: "pool_ok (pool s')"
    using worker_pool_ok [OF ok w] pool by simp
  have sh: "shutdown (pool s') = shutdown (pool s)"
    using worker_shutdown [OF w] pool by simp
  show ?thesis
  proof (cases a)
    case Wait
    with assms(2) w i have s': "s' = s\<lparr>pool := p'\<rparr>" by auto
    from Wait w have "p' = pool s" by (auto simp: thread_worker_def split: if_splits)
    with s' assms(1) show ?thesis by simp
  next
    case Exit
    with assms(2) w i have ws: "workers s' = (workers s)[i := Exited]"
      and dq: "dequeued s' = dequeued s" by auto
    from Exit w have e: "p' = pool s" "shutdown (pool s)" "queue_size (pool s) = 0"
      using worker_Exit by blast+
    have "mset (running (workers s')) = mset (running (workers s))"
      using running_update [OF i(1), of Exited] i(2) ws by simp
    moreover have "joined_ok s'"
      by (rule joined_ok_update [of s i]) (use assms(1) i sh same ws in \<open>simp_all add: sys_ok_def\<close>)
    ultimately show ?thesis
      using assms(1) e pool same ws dq by (simp add: sys_ok_def)
  next
    case (Take t)
    with assms(2) w i have ws: "workers s' = (workers s)[i := Executing t]"
      and dq: "dequeued s' = dequeued s @ [t]" by auto
    have 2: "submitted s' = dequeued s' @ pending (pool s')"
      using worker_pending [OF ok w] Take assms(1) pool same dq by (simp add: sys_ok_def)
    have 3: "mset (dequeued s') = mset (executed s') + mset (running (workers s'))"
      using running_update [OF i(1), of "Executing t"] i(2) ws dq same assms(1)
      by (simp add: sys_ok_def)
    have ne: "Exited \<notin> set (workers s)"
    proof
      assume "Exited \<in> set (workers s)"
      with assms(1) have "shutdown (pool s)" "queue_size (pool s) = 0"
        by (simp_all add: sys_ok_def)
      with w Take show False by (simp add: thread_worker_def)
    qed
    have "set (workers s') \<subseteq> insert (Executing t) (set (workers s))"
      unfolding ws by (rule set_update_subset_insert)
    with ne have 4: "Exited \<notin> set (workers s')" by auto
    have 5: "joined_ok s'"
      by (rule joined_ok_update [of s i]) (use assms(1) i sh same ws in \<open>simp_all add: sys_ok_def\<close>)
    show ?thesis
      using assms(1) 1 2 3 4 5 ws by (simp add: sys_ok_def)
  qed
qed

lemma step_Done_ok:
  assumes "sys_ok s" "step (Done i) s = Some s'"
  shows "sys_ok s'"
proof -
  from assms(2) obtain t where i: "i < length (workers s)" "workers s ! i = Executing t"
    and s': "s' = s\<lparr>workers := (workers s)[i := Idle], executed := executed s @ [t]\<rparr>"
    by (auto split: if_splits worker_pc.splits)
  have 3: "mset (dequeued s') = mset (executed s') + mset (running (workers s'))"
    using running_update [OF i(1), of Idle] i(2) assms(1) by (simp add: s' sys_ok_def)
  have "set (workers s') \<subseteq> insert Idle (set (workers s))"
    unfolding s' by (simp add: set_update_subset_insert)
  then have 4: "Exited \<in> set (workers s') \<Longrightarrow> Exited \<in> set (workers s)" by auto
  have 5: "joined_ok s'"
    by (rule joined_ok_update [of s i]) (use assms(1) i in \<open>simp_all add: sys_ok_def s'\<close>)
  have 6: "pool s' = pool s" "submitted s' = submitted s" "dequeued s' = dequeued s"
    "length (workers s') = length (workers s)"
    by (simp_all add: s')
  show ?thesis
    using assms(1) 3 4 5 6 unfolding sys_ok_def by (simp split: if_splits)
qed

lemma step_Shutdown_ok:
  assumes "sys_ok s" "step Shutdown s = Some s'"
  shows "sys_ok s'"
proof -
  from assms(2) have s': "s' = s\<lparr>pool := thread_pool_shutdown_flag (pool s), caller := Joining 0\<rparr>"
    by (auto split: shutdown_pc.splits)
  have "pending (thread_pool_shutdown_flag (pool s)) = pending (pool s)"
    "pool_ok (thread_pool_shutdown_flag (pool s)) = pool_ok (pool s)"
    "queue_size (thread_pool_shutdown_flag (pool s)) = queue_size (pool s)"
    "shutdown (thread_pool_shutdown_flag (pool s))"
    by (simp_all add: thread_pool_shutdown_flag_def pending_def pool_ok_def)
  with assms(1) show ?thesis
    by (simp add: s' sys_ok_def joined_ok_def MAX_THREADS_def split: if_splits)
qed

lemma step_Join_ok:
  assumes "sys_ok s" "step (Join ok) s = Some s'"
  shows "sys_ok s'"
proof -
  from assms(2) obtain i where c: "caller s = Joining i"
    and en: "ok \<Longrightarrow> workers s ! i = Exited"
    and s': "s' = s\<lparr>caller := thread_pool_shutdown_join i ok\<rparr>"
    by (auto split: shutdown_pc.splits if_splits)
  from assms(1) c have j: "i < MAX_THREADS" "shutdown (pool s)"
    "list_all (\<lambda>w. w = Exited) (take i (workers s))" and len: "length (workers s) = MAX_THREADS"
    by (simp_all add: sys_ok_def joined_ok_def)
  have "joined_ok s'"
  proof (cases ok)
    case False
    with j show ?thesis by (simp add: s' joined_ok_def thread_pool_shutdown_join_def)
  next
    case True
    have "take (Suc i) (workers s) = take i (workers s) @ [workers s ! i]"
      using j(1) len by (simp add: take_Suc_conv_app_nth)
    with j(3) en [OF True] have all: "list_all (\<lambda>w. w = Exited) (take (Suc i) (workers s))"
      by simp
    show ?thesis
    proof (cases "Suc i < MAX_THREADS")
      case True
      with \<open>ok\<close> j all show ?thesis by (simp add: s' joined_ok_def thread_pool_shutdown_join_def)
    next
      case False
      with j(1) len have "take (Suc i) (workers s) = workers s" by simp
      with False \<open>ok\<close> j all show ?thesis by (simp add: s' joined_ok_def thread_pool_shutdown_join_def)
    qed
  qed
  with assms(1) show ?thesis
    by (simp add: s' sys_ok_def)
qed

lemma step_ok:
  assumes "sys_ok s" "step e s = Some s'"
  shows "sys_ok s'"
proof (cases e)
  case (Submit t)
  with assms show ?thesis using step_Submit_ok by blast
next
  case (Worker i)
  with assms show ?thesis using step_Worker_ok by blast
next
  case (Done i)
  with assms show ?thesis using step_Done_ok by blast
next
  case Shutdown
  with assms show ?thesis using step_Shutdown_ok by blast
next
  case (Join ok)
  with assms show ?thesis using step_Join_ok by blast
qed

lemma run_ok: "sys_ok s \<Longrightarrow> run es s = Some s' \<Longrightarrow> sys_ok s'"
proof (induction es arbitrary: s)
  case Nil
  then show ?case by simp
next
  case (Cons e es)
  then show ?case by (auto split: option.splits dest: step_ok)
qed

lemma run_pool_ok: "run evs boot = Some s \<Longrightarrow> pool_ok (pool s)"
  using run_ok [OF sys_ok_boot] by (simp add: sys_ok_def)

lemma running_all_exited: "list_all (\<lambda>w. w = Exited) ws \<Longrightarrow> running ws = []"
  by (induction ws) auto

lemma observed:
  "map_option observe (run evs boot) = Some (c, ws, q, ex) \<Longrightarrow>
   \<exists>s. run evs boot = Some s \<and> caller s = c \<and> workers s = ws \<and> pending (pool s) = q \<and> executed s = ex"
  by (auto simp: observe_def)

lemma worker_takes_oldest:
  assumes "pool_ok p" "thread_worker p = (Take t, p')"
  shows "pending p = t # pending p'"
  using worker_pending [OF assms] by simp

section \<open>Order of dequeue\<close>

text \<open>
  C4. Whatever the producers, the workers and shutdown do, and in whatever order, the tasks
  are taken out of the queue in the order in which they were put in: the tasks taken so
  far, followed by the tasks that the ring holds from \<open>head\<close> on, are exactly the tasks
  accepted so far, in the order of their acceptance. And whenever a worker, whichever it
  is, takes a task, it is the one at index \<open>head\<close>, which is the earliest accepted task
  not yet taken.
\<close>

theorem dequeue_order_fifo:
  assumes "run evs boot = Some s"
  shows "submitted s = dequeued s @ pending (pool s) \<and>
         (\<forall>t p'. thread_worker (pool s) = (Take t, p') \<longrightarrow>
            t = queue (pool s) ! nat (head (pool s)) \<and> t = submitted s ! length (dequeued s))"
proof -
  have ok: "sys_ok s" using run_ok [OF sys_ok_boot assms] .
  then have sub: "submitted s = dequeued s @ pending (pool s)" and p: "pool_ok (pool s)"
    by (simp_all add: sys_ok_def)
  have "t = queue (pool s) ! nat (head (pool s)) \<and> t = submitted s ! length (dequeued s)"
    if w: "thread_worker (pool s) = (Take t, p')" for t p'
  proof -
    from w have "t = queue (pool s) ! nat (head (pool s))"
      by (auto simp: thread_worker_def split: if_splits)
    moreover from worker_takes_oldest [OF p w] sub have "submitted s ! length (dequeued s) = t"
      by simp
    ultimately show ?thesis by simp
  qed
  with sub show ?thesis by blast
qed

lemma fifo_trace_run:
  "map_option (\<lambda>s. (dequeued s, fst (thread_worker (pool s)))) (run fifo_trace boot)
     = Some ([job ''a'', job ''b''], Take (job ''c''))"
  by code_simp

theorem dequeue_order_fifo_witness:
  "\<exists>s p'. run fifo_trace boot = Some s \<and> dequeued s = [job ''a'', job ''b''] \<and>
       submitted s = dequeued s @ pending (pool s) \<and>
       thread_worker (pool s) = (Take (job ''c''), p') \<and>
       submitted s ! length (dequeued s) = job ''c''"
proof -
  from fifo_trace_run obtain s
    where s: "run fifo_trace boot = Some s" and d: "dequeued s = [job ''a'', job ''b'']"
      and w: "fst (thread_worker (pool s)) = Take (job ''c'')"
    by auto
  then obtain p' where w': "thread_worker (pool s) = (Take (job ''c''), p')"
    by (cases "thread_worker (pool s)") auto
  from dequeue_order_fifo [OF s] w'
  have A: "submitted s = dequeued s @ pending (pool s)"
    and B: "submitted s ! length (dequeued s) = job ''c''"
    by auto
  show ?thesis
    by (intro exI conjI) (rule s d A w' B)+
qed

section \<open>Submitting after shutdown\<close>

text \<open>
  C5. In every pool state with the shutdown flag set, \<^verbatim>\<open>thread_pool_submit\<close> returns
  -1 and leaves the pool as it was: queue contents, head, tail and queue_size are
  unchanged, whether or not the queue has room.
\<close>

theorem submit_after_shutdown_rejected:
  "shutdown p \<Longrightarrow> thread_pool_submit task p = (Some (- 1), p)"
  by (simp add: thread_pool_submit_def)

theorem submit_after_shutdown_rejected_witness:
  "shutdown (thread_pool_shutdown_flag thread_pool_init) \<and>
   thread_pool_submit (job ''late'') (thread_pool_shutdown_flag thread_pool_init)
     = (Some (- 1), thread_pool_shutdown_flag thread_pool_init)"
proof -
  have h: "shutdown (thread_pool_shutdown_flag thread_pool_init)"
    by (simp add: thread_pool_shutdown_flag_def)
  show ?thesis
    using h submit_after_shutdown_rejected [OF h, of "job ''late''"] by simp
qed

section \<open>Shutdown drains the queue\<close>

text \<open>
  C6, as the code has it. In every state the pool can reach: if some worker has left, the
  shutdown flag is set and the queue is empty (a worker leaves only then, and nothing is
  queued afterwards); and if \<^verbatim>\<open>thread_pool_shutdown\<close> has returned 0, every worker has
  left, the queue is empty, and the tasks whose function has run to its end are exactly
  the tasks accepted, each once.
\<close>

theorem shutdown_drains:
  assumes "run evs boot = Some s"
  shows "(Exited \<in> set (workers s) \<longrightarrow> shutdown (pool s) \<and> queue_size (pool s) = 0) \<and>
         (caller s = Returned 0 \<longrightarrow>
            list_all (\<lambda>w. w = Exited) (workers s) \<and> pending (pool s) = [] \<and>
            mset (executed s) = mset (submitted s))"
proof -
  have ok: "sys_ok s" using run_ok [OF sys_ok_boot assms] .
  then have ex: "Exited \<in> set (workers s) \<Longrightarrow> shutdown (pool s) \<and> queue_size (pool s) = 0"
    by (simp add: sys_ok_def split: if_splits)
  have "list_all (\<lambda>w. w = Exited) (workers s) \<and> pending (pool s) = [] \<and>
        mset (executed s) = mset (submitted s)" if r: "caller s = Returned 0"
  proof -
    from ok r have all: "list_all (\<lambda>w. w = Exited) (workers s)"
      by (simp add: sys_ok_def joined_ok_def)
    from ok have "length (workers s) = MAX_THREADS" by (simp add: sys_ok_def)
    then have "workers s \<noteq> []" by (auto simp: MAX_THREADS_def)
    with all have "Exited \<in> set (workers s)" by (cases "workers s") auto
    from ex [OF this] have p: "pending (pool s) = []" by (simp add: pending_def)
    from ok have "submitted s = dequeued s @ pending (pool s)"
      "mset (dequeued s) = mset (executed s) + mset (running (workers s))"
      by (simp_all add: sys_ok_def)
    with p running_all_exited [OF all] all show ?thesis by simp
  qed
  with ex show ?thesis by blast
qed

lemma drain_trace_run:
  "map_option observe (run drain_trace boot)
     = Some (Returned 0, replicate 8 Exited, [], [job ''b'', job ''a''])"
  by code_simp

theorem shutdown_drains_witness:
  "\<exists>s. run drain_trace boot = Some s \<and> caller s = Returned 0 \<and> Exited \<in> set (workers s) \<and>
       shutdown (pool s) \<and> queue_size (pool s) = 0 \<and> pending (pool s) = [] \<and>
       executed s = [job ''b'', job ''a''] \<and> mset (executed s) = mset (submitted s)"
proof -
  from observed [OF drain_trace_run] obtain s
    where s: "run drain_trace boot = Some s" and c: "caller s = Returned 0"
      and w: "workers s = replicate 8 Exited" and e: "executed s = [job ''b'', job ''a'']"
    by blast
  from w have x: "Exited \<in> set (workers s)" by simp
  from shutdown_drains [OF s] c x s e show ?thesis by blast
qed

text \<open>
  C6 as stated fails where a join fails. Here job a, running in worker 0, calls
  \<^verbatim>\<open>thread_pool_shutdown\<close>; \<^verbatim>\<open>pthread_join\<close> of the first worker fails and the function
  returns -1 while no worker has left, job b is still queued and nothing has run to its end.
\<close>

theorem shutdown_returns_early_counterexample:
  "map_option observe (run self_shutdown_trace boot)
     = Some (Returned (- 1), Executing (job ''a'') # replicate 7 Idle, [job ''b''], [])"
  by code_simp

section \<open>Byte order\<close>

lemma word32_of_be32: "word32_of_be (be32 x) = x"
  unfolding be32_def word32_of_be.simps
proof (rule bit_word_eqI)
  fix n :: nat
  assume "n < LENGTH(32)"
  then consider "n < 8" | "8 \<le> n" "n < 16" | "16 \<le> n" "n < 24" | "24 \<le> n" "n < 32"
    by fastforce
  then show "bit (push_bit 24 (ucast (ucast (drop_bit 24 x) :: byte)) OR
                  push_bit 16 (ucast (ucast (drop_bit 16 x) :: byte)) OR
                  push_bit 8 (ucast (ucast (drop_bit 8 x) :: byte)) OR
                  (ucast (ucast x :: byte) :: 32 word)) n = bit x n"
    by cases (auto simp: bit_simps)
qed

lemma word16_of_be16: "word16_of_be (be16 x) = x"
  unfolding be16_def word16_of_be.simps
proof (rule bit_word_eqI)
  fix n :: nat
  assume "n < LENGTH(16)"
  then consider "n < 8" | "8 \<le> n" "n < 16"
    by fastforce
  then show "bit (push_bit 8 (ucast (ucast (drop_bit 8 x) :: byte)) OR
                  (ucast (ucast x :: byte) :: 16 word)) n = bit x n"
    by cases (auto simp: bit_simps)
qed

lemma unat_byte: "unat (ucast (drop_bit k (x :: 32 word)) :: byte) = unat x div 2 ^ k mod 256"
proof -
  have "unat (ucast (drop_bit k x) :: byte) = take_bit 8 (drop_bit k (unat x))"
    by (simp only: unsigned_ucast_eq unat_drop_bit_eq) simp
  then show ?thesis
    by (simp add: take_bit_eq_mod drop_bit_eq_div)
qed

lemma be_value_be32: "be_value (be32 x) = unat x"
proof -
  define n where "n = unat x"
  define n1 where "n1 = n div 256"
  define n2 where "n2 = n1 div 256"
  define n3 where "n3 = n2 div 256"
  have lt: "n < 2 ^ 32" using unsigned_less [of x] by (simp add: n_def)
  have d: "n div 2 ^ 8 = n1" "n div 2 ^ 16 = n2" "n div 2 ^ 24 = n3"
    by (simp_all add: n1_def n2_def n3_def div_mult2_eq [symmetric])
  have "n3 < 256"
    using lt by (simp add: n1_def n2_def n3_def div_mult2_eq [symmetric] less_mult_imp_div_less)
  then have 3: "n3 mod 256 = n3" by simp
  have 2: "n3 * 256 + n2 mod 256 = n2" unfolding n3_def by (rule div_mult_mod_eq)
  have 1: "n2 * 256 + n1 mod 256 = n1" unfolding n2_def by (rule div_mult_mod_eq)
  have 0: "n1 * 256 + n mod 256 = n" unfolding n1_def by (rule div_mult_mod_eq)
  have b: "unat (ucast x :: byte) = n mod 256"
    using unat_byte [of 0 x] by (simp add: n_def)
  have "be_value (be32 x) = ((n3 mod 256 * 256 + n2 mod 256) * 256 + n1 mod 256) * 256 + n mod 256"
    unfolding be32_def be_value_def foldl.simps unat_byte b n_def [symmetric] d by simp
  also have "\<dots> = n" by (simp only: 3 2 1 0)
  finally show ?thesis by (simp add: n_def)
qed

lemma length_be32 [simp]: "length (be32 x) = 4"
  by (simp add: be32_def)

lemma length_be16 [simp]: "length (be16 x) = 2"
  by (simp add: be16_def)

lemma length_store32 [simp]: "length (store32 e x) = 4"
  by (cases e) (simp_all add: store32_def)

lemma length_store16 [simp]: "length (store16 e x) = 2"
  by (cases e) (simp_all add: store16_def)

lemma load32_store32 [simp]: "load32 e (store32 e x) = x"
  by (cases e) (simp_all add: load32_def store32_def word32_of_be32)

lemma load16_store16 [simp]: "load16 e (store16 e x) = x"
  by (cases e) (simp_all add: load16_def store16_def word16_of_be16)

lemma length_header_bytes [simp]: "length (header_bytes e h) = 12"
  by (simp add: header_bytes_def)

lemma header_roundtrip: "header_of_bytes e (header_bytes e h) = h"
proof -
  obtain a b c where s: "store32 e (magic h) = a" "store16 e (reserved h) = b" "store32 e (h_payload_size h) = c"
    by simp
  have l: "length a = 4" "length b = 2" "length c = 4"
    using s length_store32 length_store16 by auto
  have "load32 e a = magic h" "load16 e b = reserved h" "load32 e c = h_payload_size h"
    using s load32_store32 load16_store16 by auto
  then show ?thesis
    using l by (simp add: header_of_bytes_def header_bytes_def s nth_append)
qed

section \<open>The operating system calls\<close>

lemma os_send_full:
  "send_plan w = [] \<Longrightarrow>
   os_send bs w = (int (length bs), w\<lparr>calls := calls w @ [Send_call (length bs)], outbox := outbox w @ bs\<rparr>)"
  by (simp add: os_send_def)

lemma os_send_complete:
  "os_send bs w = (int (length bs), w') \<Longrightarrow> outbox w' = outbox w @ bs"
  by (auto simp: os_send_def Let_def min_def split: list.splits send_result.splits if_splits)

lemma os_recv_world:
  "os_recv n w = (got, w') \<Longrightarrow>
   allocated w' = allocated w \<and> malloc_plan w' = malloc_plan w \<and> stderr w' = stderr w \<and>
   calls w' = calls w @ [Recv_call n] \<and> outbox w' = outbox w"
  by (auto simp: os_recv_def Let_def split: list.splits recv_event.splits)

lemma os_recv_arrived:
  "inbox w = [Arrives bs] \<Longrightarrow>
   os_recv n w = (Some (take n bs),
     w\<lparr>calls := calls w @ [Recv_call n], inbox := (if length bs \<le> n then [] else [Arrives (drop n bs)])\<rparr>)"
  by (simp add: os_recv_def)

lemma os_malloc_world:
  "os_malloc n w = (ok, w') \<Longrightarrow>
   allocated w' = (if ok then Suc (allocated w) else allocated w) \<and> inbox w' = inbox w \<and>
   stderr w' = stderr w \<and> calls w' = calls w @ [Malloc_call n]"
  by (auto simp: os_malloc_def Let_def split: list.splits)

lemma os_malloc_succeeds:
  "malloc_plan w = [] \<Longrightarrow>
   os_malloc n w = (True, w\<lparr>calls := calls w @ [Malloc_call n], allocated := Suc (allocated w)\<rparr>)"
  by (simp add: os_malloc_def)

section \<open>A send that the kernel accepts, a frame that arrives whole\<close>

lemma send_ok:
  assumes "is_connected s" "send_plan w = []" "unat (payload_size m) \<le> length (buffer (payload m))"
  shows "\<exists>w'. transport_send e stack m s w = Some (0, s, w') \<and>
           outbox w' = outbox w @
             header_bytes e (stack\<lparr>magic := KORRA_MSG_MAGIC, version := KORRA_PROTOCOL_VERSION,
                                   h_msg_type := msg_type m, h_payload_size := payload_size m\<rparr>) @
             take (unat (payload_size m)) (buffer (payload m))"
proof (cases "payload_size m = 0")
  case True
  with assms show ?thesis
    by (simp add: transport_send_def os_send_full sizeof_header_def log_line_def)
next
  case False
  then have "0 < payload_size m" by (simp add: word_greater_zero_iff)
  with assms show ?thesis
    by (simp add: transport_send_def os_send_full sizeof_header_def log_line_def)
qed

lemma receive_ok:
  assumes "is_connected s" "inbox w = [Arrives (header_bytes e h @ pl)]"
    and "magic h = KORRA_MSG_MAGIC" "version h = KORRA_PROTOCOL_VERSION"
    and "length pl = unat (h_payload_size h)" "malloc_plan w = []"
  shows "\<exists>w'. transport_receive e m0 s w =
           (0, \<lparr>msg_type = h_msg_type h, payload_size = h_payload_size h,
                payload = (if pl = [] then None else Some pl)\<rparr>, s, w')"
proof (cases "h_payload_size h = 0")
  case True
  with assms(5) have "pl = []" by simp
  with assms True show ?thesis
    by (simp add: transport_receive_def os_recv_arrived sizeof_header_def bytes_received_def
        buffer_def header_roundtrip)
next
  case False
  then have pos: "0 < h_payload_size h" by (simp add: word_greater_zero_iff)
  from False have "unat (h_payload_size h) \<noteq> 0" by (simp add: unat_eq_0)
  with assms(5) have ne: "pl \<noteq> []" by auto
  show ?thesis
    using assms(1,2,3,4,6) pos ne
    by (simp add: transport_receive_def sizeof_header_def os_recv_arrived os_malloc_succeeds
        bytes_received_def buffer_def header_roundtrip assms(5) [symmetric] log_line_def)
qed

section \<open>Round trip\<close>

text \<open>
  C1. Let a message have a payload of exactly \<open>payload_size\<close> bytes, let the kernel take
  all that \<^verbatim>\<open>transport_send\<close> writes, and let these bytes, and nothing else, arrive at a
  host of the same byte order, where \<^verbatim>\<open>malloc\<close> succeeds. Then the send returns 0, and
  \<^verbatim>\<open>transport_receive\<close> returns 0 with the same \<open>msg_type\<close>, the same
  \<open>payload_size\<close> and the same payload bytes, whatever the caller's struct held before.
\<close>

theorem roundtrip:
  assumes "is_connected stx" "is_connected srx"
    and "unat (payload_size m) = length (buffer (payload m))"
    and "send_plan wtx = []" "outbox wtx = []"
    and "malloc_plan wrx = []"
    and "transport_send e stack m stx wtx = Some (r, stx', wtx')"
    and "inbox wrx = [Arrives (outbox wtx')]"
    and "transport_receive e m0 srx wrx = (r', m', srx', wrx')"
  shows "r = 0 \<and> r' = 0 \<and> msg_type m' = msg_type m \<and> payload_size m' = payload_size m \<and>
         buffer (payload m') = buffer (payload m)"
proof -
  let ?h = "stack\<lparr>magic := KORRA_MSG_MAGIC, version := KORRA_PROTOCOL_VERSION,
                   h_msg_type := msg_type m, h_payload_size := payload_size m\<rparr>"
  from send_ok [OF assms(1) assms(4), of m e stack] assms(3,5,7)
  have r: "r = 0" and out: "outbox wtx' = header_bytes e ?h @ buffer (payload m)"
    by auto
  have "length (buffer (payload m)) = unat (h_payload_size ?h)"
    using assms(3) by simp
  from receive_ok [OF assms(2) _ _ _ this assms(6), of e m0] assms(8,9) out
  have "r' = 0" "m' = \<lparr>msg_type = h_msg_type ?h, payload_size = h_payload_size ?h,
      payload = (if buffer (payload m) = [] then None else Some (buffer (payload m)))\<rparr>"
    by auto
  with r show ?thesis by (simp add: buffer_def)
qed

theorem roundtrip_witness:
  "\<exists>wtx' m' srx' wrx'.
     transport_send LittleEndian stack0 job_submit sock0 world0 = Some (0, sock0, wtx') \<and>
     outbox wtx' = [0x41, 0x52, 0x52, 0x4B, 1, 3, 0xEF, 0xBE, 2, 0, 0, 0, 7, 9] \<and>
     transport_receive LittleEndian stale_message sock0 (world0\<lparr>inbox := [Arrives (outbox wtx')]\<rparr>)
       = (0, m', srx', wrx') \<and>
     msg_type m' = 3 \<and> payload_size m' = 2 \<and> buffer (payload m') = [7, 9]"
proof -
  obtain wtx' where tx: "transport_send LittleEndian stack0 job_submit sock0 world0 = Some (0, sock0, wtx')"
    and out: "outbox wtx' = [0x41, 0x52, 0x52, 0x4B, 1, 3, 0xEF, 0xBE, 2, 0, 0, 0, 7, 9]"
    by (simp add: transport_defs scenario_defs)
  let ?wrx = "world0\<lparr>inbox := [Arrives (outbox wtx')]\<rparr>"
  obtain r' m' srx' wrx' where rx: "transport_receive LittleEndian stale_message sock0 ?wrx = (r', m', srx', wrx')"
    by (cases "transport_receive LittleEndian stale_message sock0 ?wrx") auto
  have h: "is_connected sock0" "unat (payload_size job_submit) = length (buffer (payload job_submit))"
    "send_plan world0 = []" "outbox world0 = []" "malloc_plan ?wrx = []" "inbox ?wrx = [Arrives (outbox wtx')]"
    by (simp_all add: scenario_defs buffer_def)
  from roundtrip [OF h(1) h(1) h(2) h(3) h(4) h(5) tx h(6) rx]
  have "r' = 0" "msg_type m' = 3" "payload_size m' = 2" "buffer (payload m') = [7, 9]"
    by (simp_all add: job_submit_def buffer_def)
  with tx out rx show ?thesis by blast
qed

section \<open>What a send writes\<close>

text \<open>
  C2 fails on the reserved field. \<^verbatim>\<open>transport_send\<close> assigns \<open>magic\<close>,
  \<open>version\<close>, \<open>msg_type\<close> and \<open>payload_size\<close> of its local header and never
  \<open>reserved\<close>, so bytes 6 and 7 of the frame are what the stack held. Here a heartbeat is
  sent from a big-endian host whose stack slot holds \<open>0xBEEF\<close> there: the send returns 0
  and the twelve bytes written carry \<open>BE EF\<close> where the header should carry zero.
\<close>

theorem send_leaves_reserved_unset:
  "send_ret (transport_send BigEndian stack0 heartbeat sock0 world0) = Some 0 \<and>
   sent_bytes (transport_send BigEndian stack0 heartbeat sock0 world0)
     = [0x4B, 0x52, 0x52, 0x41, 1, 0, 0xBE, 0xEF, 0, 0, 0, 0] \<and>
   take 2 (drop 6 (sent_bytes (transport_send BigEndian stack0 heartbeat sock0 world0))) \<noteq> [0, 0]"
  by (simp add: send_ret_def sent_bytes_def transport_send_def stack0_def heartbeat_def sock0_def
      world0_def os_send_def header_bytes_def store32_def store16_def be32_def be16_def
      KORRA_MSG_MAGIC_def KORRA_PROTOCOL_VERSION_def sizeof_header_def log_line_def)

text \<open>
  C3 as stated fails on a little-endian host: the header goes out as it lies in memory.
  A job-submit message with the two payload bytes 7 and 9 leaves such a host with the magic
  as \<open>41 52 52 4B\<close> and the size as \<open>02 00 00 00\<close>; the wire format asks for
  \<open>4B 52 52 41\<close> and \<open>00 00 00 02\<close>.
\<close>

theorem little_endian_header_counterexample:
  "sent_bytes (transport_send LittleEndian stack_clean job_submit sock0 world0)
     = [0x41, 0x52, 0x52, 0x4B, 1, 3, 0, 0, 2, 0, 0, 0, 7, 9] \<and>
   take 4 (sent_bytes (transport_send LittleEndian stack_clean job_submit sock0 world0))
     \<noteq> be32 KORRA_MSG_MAGIC \<and>
   take 4 (drop 8 (sent_bytes (transport_send LittleEndian stack_clean job_submit sock0 world0)))
     \<noteq> be32 (payload_size job_submit) \<and>
   be32 KORRA_MSG_MAGIC = [0x4B, 0x52, 0x52, 0x41] \<and>
   be32 (payload_size job_submit) = [0, 0, 0, 2]"
  by (simp add: sent_bytes_def transport_send_def stack_clean_def job_submit_def sock0_def
      world0_def os_send_def header_bytes_def store32_def store16_def be32_def be16_def
      KORRA_MSG_MAGIC_def KORRA_PROTOCOL_VERSION_def sizeof_header_def log_line_def buffer_def)

text \<open>
  C3, as the code has it. When the kernel takes all that is written, the first four bytes
  of the frame are the magic and the bytes at offsets 8 to 11 are the payload size, both in
  the byte order of the sending host: most significant byte first on a big-endian host, as
  in the wire format, and least significant byte first on a little-endian host.
  (\<open>be32\<close> lists the bytes most significant first: read as a number in base 256 they
  give the word back.)
\<close>

theorem header_in_host_byte_order:
  assumes "is_connected s" "send_plan w = []" "outbox w = []"
    and "unat (payload_size m) \<le> length (buffer (payload m))"
  shows "take 4 (sent_bytes (transport_send e stack m s w))
           = (case e of BigEndian \<Rightarrow> [0x4B, 0x52, 0x52, 0x41] | LittleEndian \<Rightarrow> [0x41, 0x52, 0x52, 0x4B]) \<and>
         take 4 (drop 8 (sent_bytes (transport_send e stack m s w)))
           = (case e of BigEndian \<Rightarrow> be32 (payload_size m) | LittleEndian \<Rightarrow> rev (be32 (payload_size m))) \<and>
         be_value (be32 (payload_size m)) = unat (payload_size m)"
proof -
  let ?h = "stack\<lparr>magic := KORRA_MSG_MAGIC, version := KORRA_PROTOCOL_VERSION,
                   h_msg_type := msg_type m, h_payload_size := payload_size m\<rparr>"
  from send_ok [OF assms(1,2,4), of e stack] assms(3)
  have out: "sent_bytes (transport_send e stack m s w)
      = header_bytes e ?h @ take (unat (payload_size m)) (buffer (payload m))"
    by (auto simp: sent_bytes_def)
  have t1: "take 4 (sent_bytes (transport_send e stack m s w)) = store32 e KORRA_MSG_MAGIC"
    by (simp add: out header_bytes_def)
  have t2: "take 4 (drop 8 (sent_bytes (transport_send e stack m s w))) = store32 e (payload_size m)"
    by (simp add: out header_bytes_def)
  have mb: "be32 KORRA_MSG_MAGIC = [0x4B, 0x52, 0x52, 0x41]"
    by (simp add: be32_def KORRA_MSG_MAGIC_def)
  show ?thesis
    unfolding t1 t2 by (cases e) (simp_all add: store32_def mb be_value_be32)
qed

theorem header_in_host_byte_order_witness:
  "take 4 (sent_bytes (transport_send LittleEndian stack_clean job_submit sock0 world0)) = [0x41, 0x52, 0x52, 0x4B] \<and>
   take 4 (drop 8 (sent_bytes (transport_send LittleEndian stack_clean job_submit sock0 world0))) = [2, 0, 0, 0] \<and>
   take 4 (sent_bytes (transport_send BigEndian stack_clean job_submit sock0 world0)) = [0x4B, 0x52, 0x52, 0x41] \<and>
   take 4 (drop 8 (sent_bytes (transport_send BigEndian stack_clean job_submit sock0 world0))) = [0, 0, 0, 2]"
proof -
  have h: "is_connected sock0" "send_plan world0 = []" "outbox world0 = []"
    "unat (payload_size job_submit) \<le> length (buffer (payload job_submit))"
    by (simp_all add: sock0_def world0_def job_submit_def buffer_def)
  have "be32 (payload_size job_submit) = [0, 0, 0, 2]"
    by (simp add: be32_def job_submit_def)
  with header_in_host_byte_order [OF h, of LittleEndian stack_clean]
    header_in_host_byte_order [OF h, of BigEndian stack_clean]
  show ?thesis by simp
qed

section \<open>Headers that fail validation\<close>

text \<open>
  C7. When the twelve header bytes have arrived and the magic is not \<open>0x4B525241\<close>, or
  the version is not 1, \<^verbatim>\<open>transport_receive\<close> returns -1 and leaves the caller's
  message and the socket state as they were. The only call it has made is the \<^verbatim>\<open>recv\<close>
  of the header: no \<^verbatim>\<open>malloc\<close>, no second \<^verbatim>\<open>recv\<close>, whatever payload size the
  header carries. Both cases return the same -1; they differ in the line logged, the one
  about the magic if the magic is wrong and the one about the version otherwise.
\<close>

theorem invalid_header_rejected:
  assumes "is_connected s"
    and "os_recv sizeof_header w = (Some hb, w1)" "length hb = sizeof_header"
    and "magic (header_of_bytes e hb) \<noteq> KORRA_MSG_MAGIC \<or>
         version (header_of_bytes e hb) \<noteq> KORRA_PROTOCOL_VERSION"
    and "transport_receive e message s w = (r, message', s', w')"
  shows "r = - 1 \<and> message' = message \<and> s' = s \<and>
         calls w' = calls w @ [Recv_call sizeof_header] \<and> allocated w' = allocated w \<and>
         stderr w' = stderr w @
           [if magic (header_of_bytes e hb) \<noteq> KORRA_MSG_MAGIC then ''Invalid message magic: %08x''
            else ''Unsupported protocol version: %d'']"
proof -
  from os_recv_world [OF assms(2)]
  have w1: "allocated w1 = allocated w" "stderr w1 = stderr w"
    "calls w1 = calls w @ [Recv_call sizeof_header]"
    by simp_all
  from assms(1,3,4,5) show ?thesis
    by (auto simp: transport_receive_def assms(2) bytes_received_def buffer_def log_line_def w1
        split: if_splits)
qed

lemma bad_magic_run:
  "transport_receive BigEndian heartbeat sock0 bad_magic_world =
     (- 1, heartbeat, sock0,
      bad_magic_world\<lparr>inbox := [Arrives [1, 2, 3, 4, 5, 6, 7, 8, 9, 10]], calls := [Recv_call 12],
        stderr := [''Invalid message magic: %08x'']\<rparr>)"
  by (simp add: transport_receive_def sock0_def bad_magic_world_def world0_def os_recv_def
      sizeof_header_def bytes_received_def buffer_def header_of_bytes_def load32_def
      KORRA_MSG_MAGIC_def log_line_def)

theorem invalid_header_rejected_witness:
  "transport_receive BigEndian heartbeat sock0 bad_magic_world =
     (- 1, heartbeat, sock0,
      bad_magic_world\<lparr>inbox := [Arrives [1, 2, 3, 4, 5, 6, 7, 8, 9, 10]], calls := [Recv_call 12],
        stderr := [''Invalid message magic: %08x'']\<rparr>) \<and>
   fst (transport_receive BigEndian heartbeat sock0 bad_version_world) = - 1 \<and>
   calls (snd (snd (snd (transport_receive BigEndian heartbeat sock0 bad_version_world)))) = [Recv_call 12] \<and>
   stderr (snd (snd (snd (transport_receive BigEndian heartbeat sock0 bad_version_world))))
     = [''Unsupported protocol version: %d'']"
proof -
  let ?hb = "[0x4B, 0x52, 0x52, 0x41, 2, 3, 0, 0, 0, 0, 0, 10] :: byte list"
  let ?w1 = "bad_version_world\<lparr>calls := [Recv_call 12], inbox := [Arrives [1, 2, 3, 4, 5, 6, 7, 8, 9, 10]]\<rparr>"
  have c: "is_connected sock0" by (simp add: sock0_def)
  have rv: "os_recv sizeof_header bad_version_world = (Some ?hb, ?w1)"
    by (simp add: os_recv_def bad_version_world_def world0_def sizeof_header_def)
  have len: "length ?hb = sizeof_header" by (simp add: sizeof_header_def)
  have bad: "magic (header_of_bytes BigEndian ?hb) \<noteq> KORRA_MSG_MAGIC \<or>
             version (header_of_bytes BigEndian ?hb) \<noteq> KORRA_PROTOCOL_VERSION"
    by (simp add: header_of_bytes_def KORRA_PROTOCOL_VERSION_def)
  have good: "magic (header_of_bytes BigEndian ?hb) = KORRA_MSG_MAGIC"
    by (simp add: header_of_bytes_def load32_def KORRA_MSG_MAGIC_def)
  obtain r m' s' w' where res: "transport_receive BigEndian heartbeat sock0 bad_version_world = (r, m', s', w')"
    by (cases "transport_receive BigEndian heartbeat sock0 bad_version_world") auto
  from invalid_header_rejected [OF c rv len bad res] good
  have "r = - 1" "calls w' = [Recv_call 12]" "stderr w' = [''Unsupported protocol version: %d'']"
    by (simp_all add: bad_version_world_def world0_def sizeof_header_def)
  with res bad_magic_run show ?thesis by simp
qed

section \<open>Reads that come up short\<close>

text \<open>
  C8. Let \<^verbatim>\<open>transport_receive\<close> run on a connected socket. If the \<^verbatim>\<open>recv\<close> of the
  header returns 0, the function returns -1 with \<open>is_connected\<close> false; it has
  allocated nothing and has not touched the caller's message. If a valid header with a
  nonzero payload size has arrived, the buffer has been allocated, and the \<^verbatim>\<open>recv\<close> of
  the payload returns anything but the full size, the function returns -1 with the payload
  pointer \<^verbatim>\<open>NULL\<close> and the buffer freed (its last call is \<^verbatim>\<open>free\<close>, and as many
  buffers are allocated as before); \<open>is_connected\<close> is then false exactly if that
  \<^verbatim>\<open>recv\<close> returned 0, and stays true after a short read or an error.
\<close>

theorem zero_byte_read_is_peer_closed:
  assumes "is_connected s"
    and "transport_receive e message s w = (r, message', s', w')"
  shows "(os_recv sizeof_header w = (Some [], w1) \<longrightarrow>
            r = - 1 \<and> \<not> is_connected s' \<and> message' = message \<and>
            allocated w' = allocated w \<and> calls w' = calls w @ [Recv_call sizeof_header]) \<and>
         (os_recv sizeof_header w = (Some hb, w1) \<and> length hb = sizeof_header \<and>
          magic (header_of_bytes e hb) = KORRA_MSG_MAGIC \<and>
          version (header_of_bytes e hb) = KORRA_PROTOCOL_VERSION \<and>
          0 < h_payload_size (header_of_bytes e hb) \<and>
          os_malloc (unat (h_payload_size (header_of_bytes e hb))) w1 = (True, w2) \<and>
          os_recv (unat (h_payload_size (header_of_bytes e hb))) w2 = (got, w3) \<and>
          bytes_received got \<noteq> int (unat (h_payload_size (header_of_bytes e hb))) \<longrightarrow>
            r = - 1 \<and> payload message' = None \<and> allocated w' = allocated w \<and>
            last (calls w') = Free_call \<and>
            is_connected s' = (bytes_received got \<noteq> 0))"
proof (intro conjI impI)
  assume a: "os_recv sizeof_header w = (Some [], w1)"
  from os_recv_world [OF a]
  have w1: "allocated w1 = allocated w" "calls w1 = calls w @ [Recv_call sizeof_header]"
    by simp_all
  from assms a
  have "r = - 1 \<and> \<not> is_connected s' \<and> message' = message \<and> w' = log_line ''Connection closed by peer'' w1"
    by (auto simp: transport_receive_def bytes_received_def sizeof_header_def)
  with w1 show "r = - 1" "\<not> is_connected s'" "message' = message" "allocated w' = allocated w"
    "calls w' = calls w @ [Recv_call sizeof_header]"
    by (simp_all add: log_line_def)
next
  let ?n = "unat (h_payload_size (header_of_bytes e hb))"
  assume b: "os_recv sizeof_header w = (Some hb, w1) \<and> length hb = sizeof_header \<and>
          magic (header_of_bytes e hb) = KORRA_MSG_MAGIC \<and>
          version (header_of_bytes e hb) = KORRA_PROTOCOL_VERSION \<and>
          0 < h_payload_size (header_of_bytes e hb) \<and>
          os_malloc ?n w1 = (True, w2) \<and> os_recv ?n w2 = (got, w3) \<and>
          bytes_received got \<noteq> int ?n"
  then have r1: "os_recv sizeof_header w = (Some hb, w1)" and r2: "os_malloc ?n w1 = (True, w2)"
    and r3: "os_recv ?n w2 = (got, w3)" by simp_all
  have al: "allocated w3 = Suc (allocated w)"
    using os_recv_world [OF r1] os_malloc_world [OF r2] os_recv_world [OF r3] by simp
  from b have br: "bytes_received (Some hb) = int sizeof_header"
    by (simp add: bytes_received_def)
  from assms b
  have res: "r = - 1 \<and> payload message' = None \<and>
        is_connected s' = (bytes_received got \<noteq> 0) \<and>
        (\<exists>line. w' = os_free (log_line line w3))"
    by (auto simp: transport_receive_def r1 r2 r3 br buffer_def Let_def split: if_splits)
  with al show "r = - 1" "payload message' = None" "allocated w' = allocated w"
    "last (calls w') = Free_call" "is_connected s' = (bytes_received got \<noteq> 0)"
    by (auto simp: os_free_def log_line_def)
qed

theorem zero_byte_read_is_peer_closed_witness:
  "(\<exists>w'. transport_receive BigEndian stale_message sock0 world0
            = (- 1, stale_message, sock0\<lparr>is_connected := False\<rparr>, w') \<and>
          allocated w' = 0 \<and> calls w' = [Recv_call 12]) \<and>
   (\<exists>m' s' w'. transport_receive BigEndian stale_message sock0 cut_off_world = (- 1, m', s', w') \<and>
          payload m' = None \<and> allocated w' = 0 \<and> last (calls w') = Free_call \<and> \<not> is_connected s') \<and>
   (\<exists>m' s' w'. transport_receive BigEndian stale_message sock0 truncated_world = (- 1, m', s', w') \<and>
          payload m' = None \<and> allocated w' = 0 \<and> last (calls w') = Free_call \<and> is_connected s')"
proof -
  have c: "is_connected sock0" by (simp add: sock0_def)
  let ?hb = "[0x4B, 0x52, 0x52, 0x41, 1, 3, 0, 0, 0, 0, 0, 4] :: byte list"
  have hdr: "length ?hb = sizeof_header" "magic (header_of_bytes BigEndian ?hb) = KORRA_MSG_MAGIC"
    "version (header_of_bytes BigEndian ?hb) = KORRA_PROTOCOL_VERSION"
    "h_payload_size (header_of_bytes BigEndian ?hb) = 4"
    by (simp_all add: transport_defs)
  have A: "\<exists>w'. transport_receive BigEndian stale_message sock0 world0
            = (- 1, stale_message, sock0\<lparr>is_connected := False\<rparr>, w') \<and>
          allocated w' = 0 \<and> calls w' = [Recv_call 12]"
  proof -
    obtain r m' s' w' where res: "transport_receive BigEndian stale_message sock0 world0 = (r, m', s', w')"
      by (cases "transport_receive BigEndian stale_message sock0 world0") auto
    have r1: "os_recv sizeof_header world0 = (Some [], world0\<lparr>calls := [Recv_call 12]\<rparr>)"
      by (simp add: os_recv_def world0_def sizeof_header_def)
    from zero_byte_read_is_peer_closed [OF c res, of "world0\<lparr>calls := [Recv_call 12]\<rparr>"] r1
    have "r = - 1" "\<not> is_connected s'" "m' = stale_message" "allocated w' = 0" "calls w' = [Recv_call 12]"
      by (simp_all add: world0_def sizeof_header_def)
    moreover have "s' = sock0\<lparr>is_connected := False\<rparr>"
      using res by (simp add: transport_defs scenario_defs)
    ultimately show ?thesis using res by simp
  qed
  have B: "\<exists>m' s' w'. transport_receive BigEndian stale_message sock0 cut_off_world = (- 1, m', s', w') \<and>
          payload m' = None \<and> allocated w' = 0 \<and> last (calls w') = Free_call \<and> \<not> is_connected s'"
  proof -
    obtain r m' s' w' where res: "transport_receive BigEndian stale_message sock0 cut_off_world = (r, m', s', w')"
      by (cases "transport_receive BigEndian stale_message sock0 cut_off_world") auto
    let ?w1 = "cut_off_world\<lparr>calls := [Recv_call 12], inbox := []\<rparr>"
    let ?w2 = "?w1\<lparr>calls := [Recv_call 12, Malloc_call 4], allocated := 1\<rparr>"
    let ?w3 = "?w2\<lparr>calls := [Recv_call 12, Malloc_call 4, Recv_call 4]\<rparr>"
    have r1: "os_recv sizeof_header cut_off_world = (Some ?hb, ?w1)"
      by (simp add: os_recv_def cut_off_world_def world0_def sizeof_header_def)
    have r2: "os_malloc (unat (h_payload_size (header_of_bytes BigEndian ?hb))) ?w1 = (True, ?w2)"
      by (simp add: hdr os_malloc_def cut_off_world_def world0_def)
    have r3: "os_recv (unat (h_payload_size (header_of_bytes BigEndian ?hb))) ?w2 = (Some [], ?w3)"
      by (simp add: hdr os_recv_def cut_off_world_def world0_def)
    have short: "bytes_received (Some []) \<noteq> int (unat (h_payload_size (header_of_bytes BigEndian ?hb)))"
      by (simp add: hdr bytes_received_def)
    have pos: "0 < h_payload_size (header_of_bytes BigEndian ?hb)"
      by (simp add: hdr)
    from zero_byte_read_is_peer_closed [OF c res, of ?w1 ?hb ?w2 "Some []" ?w3]
      r1 hdr(1,2,3) pos r2 r3 short
    have "r = - 1" "payload m' = None" "allocated w' = 0" "last (calls w') = Free_call" "\<not> is_connected s'"
      by (simp_all add: cut_off_world_def world0_def bytes_received_def)
    with res show ?thesis by simp
  qed
  have C: "\<exists>m' s' w'. transport_receive BigEndian stale_message sock0 truncated_world = (- 1, m', s', w') \<and>
          payload m' = None \<and> allocated w' = 0 \<and> last (calls w') = Free_call \<and> is_connected s'"
  proof -
    obtain r m' s' w' where res: "transport_receive BigEndian stale_message sock0 truncated_world = (r, m', s', w')"
      by (cases "transport_receive BigEndian stale_message sock0 truncated_world") auto
    let ?w1 = "truncated_world\<lparr>calls := [Recv_call 12], inbox := [Arrives [7, 9]]\<rparr>"
    let ?w2 = "?w1\<lparr>calls := [Recv_call 12, Malloc_call 4], allocated := 1\<rparr>"
    let ?w3 = "?w2\<lparr>calls := [Recv_call 12, Malloc_call 4, Recv_call 4], inbox := []\<rparr>"
    have r1: "os_recv sizeof_header truncated_world = (Some ?hb, ?w1)"
      by (simp add: os_recv_def truncated_world_def world0_def sizeof_header_def)
    have r2: "os_malloc (unat (h_payload_size (header_of_bytes BigEndian ?hb))) ?w1 = (True, ?w2)"
      by (simp add: hdr os_malloc_def truncated_world_def world0_def)
    have r3: "os_recv (unat (h_payload_size (header_of_bytes BigEndian ?hb))) ?w2 = (Some [7, 9], ?w3)"
      by (simp add: hdr os_recv_def truncated_world_def world0_def)
    have short: "bytes_received (Some [7, 9]) \<noteq> int (unat (h_payload_size (header_of_bytes BigEndian ?hb)))"
      by (simp add: hdr bytes_received_def)
    have pos: "0 < h_payload_size (header_of_bytes BigEndian ?hb)"
      by (simp add: hdr)
    from zero_byte_read_is_peer_closed [OF c res, of ?w1 ?hb ?w2 "Some [7, 9]" ?w3]
      r1 hdr(1,2,3) pos r2 r3 short
    have "r = - 1" "payload m' = None" "allocated w' = 0" "last (calls w') = Free_call" "is_connected s'"
      by (simp_all add: truncated_world_def world0_def bytes_received_def)
    with res show ?thesis by simp
  qed
  from A B C show ?thesis by blast
qed

section \<open>A failed send and the connected flag\<close>

text \<open>
  C9. On a connected socket, whatever the kernel does with the two writes,
  \<^verbatim>\<open>transport_send\<close> returns 0 or -1 and leaves the socket state as it was, so
  \<open>is_connected\<close> is still true. It returns 0 only if the header and the payload were
  taken in full; a write that fails or falls short makes it return -1.
\<close>

theorem send_never_touches_connected:
  assumes "is_connected s"
    and "transport_send e stack m s w = Some (r, s', w')"
  shows "s' = s \<and> is_connected s' \<and> (r = 0 \<or> r = - 1) \<and>
         (if r = 0 then
            outbox w' = outbox w @
              header_bytes e (stack\<lparr>magic := KORRA_MSG_MAGIC, version := KORRA_PROTOCOL_VERSION,
                                    h_msg_type := msg_type m, h_payload_size := payload_size m\<rparr>) @
              take (unat (payload_size m)) (buffer (payload m))
          else True)"
proof -
  let ?h = "stack\<lparr>magic := KORRA_MSG_MAGIC, version := KORRA_PROTOCOL_VERSION,
                   h_msg_type := msg_type m, h_payload_size := payload_size m\<rparr>"
  obtain r1 w1 where s1: "os_send (header_bytes e ?h) w = (r1, w1)"
    by (cases "os_send (header_bytes e ?h) w")
  obtain r2 w2 where s2: "os_send (take (unat (payload_size m)) (buffer (payload m))) w1 = (r2, w2)"
    by (cases "os_send (take (unat (payload_size m)) (buffer (payload m))) w1")
  have st: "s' = s" "r = 0 \<or> r = - 1"
    using assms by (auto simp: transport_send_def s1 s2 Let_def split: if_splits)
  have "outbox w' = outbox w @ header_bytes e ?h @ take (unat (payload_size m)) (buffer (payload m))"
    if "r = 0"
  proof (cases "0 < payload_size m")
    case False
    with assms that have "r1 = int (length (header_bytes e ?h))" "w' = log_line ''Sent message type %d, size %d'' w1"
      by (auto simp: transport_send_def s1 sizeof_header_def split: if_splits)
    moreover from False have "unat (payload_size m) = 0"
      by (simp add: word_greater_zero_iff)
    ultimately show ?thesis
      using os_send_complete [of "header_bytes e ?h" w w1] s1 by (simp add: log_line_def)
  next
    case True
    with assms that have r: "r1 = int (length (header_bytes e ?h))"
      "unat (payload_size m) \<le> length (buffer (payload m))"
      "r2 = int (unat (payload_size m))" "w' = log_line ''Sent message type %d, size %d'' w2"
      by (auto simp: transport_send_def s1 s2 sizeof_header_def split: if_splits)
    then have "r2 = int (length (take (unat (payload_size m)) (buffer (payload m))))"
      by simp
    with os_send_complete [of "header_bytes e ?h" w w1] s1 r(1,4)
      os_send_complete [of "take (unat (payload_size m)) (buffer (payload m))" w1 w2] s2
    show ?thesis by (simp add: log_line_def)
  qed
  with st assms(1) show ?thesis by simp
qed

theorem send_never_touches_connected_witness:
  "\<exists>w' w''.
     transport_send BigEndian stack0 job_submit sock0 (world0\<lparr>send_plan := [SendFails]\<rparr>)
       = Some (- 1, sock0, w') \<and> is_connected sock0 \<and>
     transport_send BigEndian stack0 job_submit sock0 (world0\<lparr>send_plan := [SendAccepts 12, SendAccepts 1]\<rparr>)
       = Some (- 1, sock0, w'') \<and>
     send_ret (transport_send BigEndian stack0 job_submit sock0 world0) = Some 0 \<and>
     sent_bytes (transport_send BigEndian stack0 job_submit sock0 world0)
       = [0x4B, 0x52, 0x52, 0x41, 1, 3, 0xBE, 0xEF, 0, 0, 0, 2, 7, 9]"
proof -
  have c: "is_connected sock0" by (simp add: sock0_def)
  obtain w1 where f1: "transport_send BigEndian stack0 job_submit sock0 (world0\<lparr>send_plan := [SendFails]\<rparr>)
       = Some (- 1, sock0, w1)"
    by (simp add: transport_defs scenario_defs)
  obtain w2 where f2: "transport_send BigEndian stack0 job_submit sock0
         (world0\<lparr>send_plan := [SendAccepts 12, SendAccepts 1]\<rparr>) = Some (- 1, sock0, w2)"
    by (simp add: transport_defs scenario_defs)
  obtain w3 where f3: "transport_send BigEndian stack0 job_submit sock0 world0 = Some (0, sock0, w3)"
    by (simp add: transport_defs scenario_defs)
  from send_never_touches_connected [OF c f3]
  have "outbox w3 = [0x4B, 0x52, 0x52, 0x41, 1, 3, 0xBE, 0xEF, 0, 0, 0, 2, 7, 9]"
    by (simp add: transport_defs scenario_defs)
  with f3 have "send_ret (transport_send BigEndian stack0 job_submit sock0 world0) = Some 0"
    "sent_bytes (transport_send BigEndian stack0 job_submit sock0 world0)
       = [0x4B, 0x52, 0x52, 0x41, 1, 3, 0xBE, 0xEF, 0, 0, 0, 2, 7, 9]"
    by (simp_all add: send_ret_def sent_bytes_def)
  moreover from send_never_touches_connected [OF c f1] have "is_connected sock0" by simp
  ultimately show ?thesis using f1 f2 by blast
qed

section \<open>Messages without payload\<close>

text \<open>
  C10. Whenever \<^verbatim>\<open>transport_receive\<close> returns 0 and the header it read has payload
  size 0, the message returned has a \<^verbatim>\<open>NULL\<close> payload, the \<open>msg_type\<close> of that header
  and \<open>payload_size\<close> 0; the header passed validation; and the function has called
  \<^verbatim>\<open>recv\<close> once and \<^verbatim>\<open>malloc\<close> not at all.
\<close>

theorem empty_payload_is_null:
  assumes "transport_receive e message s w = (0, message', s', w')"
    and "h_payload_size (header_of_bytes e (buffer (fst (os_recv sizeof_header w)))) = 0"
  shows "payload message' = None \<and>
         msg_type message' = h_msg_type (header_of_bytes e (buffer (fst (os_recv sizeof_header w)))) \<and>
         payload_size message' = 0 \<and>
         magic (header_of_bytes e (buffer (fst (os_recv sizeof_header w)))) = KORRA_MSG_MAGIC \<and>
         version (header_of_bytes e (buffer (fst (os_recv sizeof_header w)))) = KORRA_PROTOCOL_VERSION \<and>
         calls w' = calls w @ [Recv_call sizeof_header] \<and> allocated w' = allocated w"
proof -
  obtain got w1 where r1: "os_recv sizeof_header w = (got, w1)"
    by (cases "os_recv sizeof_header w")
  from os_recv_world [OF r1] have w1: "allocated w1 = allocated w" "calls w1 = calls w @ [Recv_call sizeof_header]"
    by simp_all
  from assms have "payload message' = None \<and>
         msg_type message' = h_msg_type (header_of_bytes e (buffer got)) \<and>
         payload_size message' = 0 \<and>
         magic (header_of_bytes e (buffer got)) = KORRA_MSG_MAGIC \<and>
         version (header_of_bytes e (buffer got)) = KORRA_PROTOCOL_VERSION \<and>
         w' = log_line ''Received message type %d, size %d'' w1"
    by (auto simp: transport_receive_def r1 Let_def split: if_splits)
  with w1 show ?thesis by (simp add: r1 log_line_def)
qed

theorem empty_payload_is_null_witness:
  "\<exists>m' s' w'. transport_receive BigEndian stale_message sock0 heartbeat_world = (0, m', s', w') \<and>
     h_payload_size (header_of_bytes BigEndian (buffer (fst (os_recv sizeof_header heartbeat_world)))) = 0 \<and>
     payload m' = None \<and> msg_type m' = 0 \<and> payload_size m' = 0 \<and>
     calls w' = [Recv_call 12] \<and> allocated w' = 0"
proof -
  obtain m' s' w' where res: "transport_receive BigEndian stale_message sock0 heartbeat_world = (0, m', s', w')"
    by (simp add: transport_defs scenario_defs)
  have z: "h_payload_size (header_of_bytes BigEndian (buffer (fst (os_recv sizeof_header heartbeat_world)))) = 0"
    by (simp add: transport_defs scenario_defs)
  have t: "h_msg_type (header_of_bytes BigEndian (buffer (fst (os_recv sizeof_header heartbeat_world)))) = 0"
    by (simp add: transport_defs scenario_defs)
  from empty_payload_is_null [OF res z] t
  have "payload m' = None" "msg_type m' = 0" "payload_size m' = 0" "calls w' = [Recv_call 12]"
    "allocated w' = 0"
    by (simp_all add: heartbeat_world_def world0_def sizeof_header_def)
  with res z show ?thesis by blast
qed

end
